theory Spec2Isabelle
  imports Main
begin

section \<open>Strings and values of the host language\<close>

text \<open>
  The engine is a JavaScript program (\<^verbatim>\<open>lib/ejs.js\<close>). A JavaScript string is modelled as a
  list of 8-bit code units (\<^typ>\<open>string\<close>); code units above \<open>0xFF\<close> are outside the model.
  The characters the engine treats specially get names.
\<close>

abbreviation nl :: char where "nl \<equiv> CHR 0x0A"
abbreviation cr :: char where "cr \<equiv> CHR 0x0D"
abbreviation bslash :: char where "bslash \<equiv> CHR 0x5C"
abbreviation squote :: char where "squote \<equiv> CHR 0x27"
abbreviation dquote :: char where "dquote \<equiv> CHR 0x22"

text \<open>The class \<^verbatim>\<open>\s\<close> of a JavaScript regular expression, on 8-bit code units.\<close>

definition is_space :: "char \<Rightarrow> bool" where
  "is_space c = (c \<in> set [CHR 0x09, CHR 0x0A, CHR 0x0B, CHR 0x0C, CHR 0x0D, CHR 0x20, CHR 0xA0])"

text \<open>The class \<^verbatim>\<open>.\<close>: every code unit but a line terminator.\<close>

definition is_dot :: "char \<Rightarrow> bool" where
  "is_dot c = (c \<noteq> nl \<and> c \<noteq> cr)"

definition starts_with :: "string \<Rightarrow> string \<Rightarrow> bool" where
  "starts_with p s = (take (length p) s = p)"

text \<open>\<^verbatim>\<open>str.split(sep)\<close> for a one-character separator: never the empty list.\<close>

fun split_on :: "char \<Rightarrow> string \<Rightarrow> string list" where
  "split_on sep [] = [[]]"
| "split_on sep (c # cs) =
     (if c = sep then [] # split_on sep cs
      else (case split_on sep cs of [] \<Rightarrow> [[c]] | l # ls \<Rightarrow> (c # l) # ls))"

text \<open>\<^verbatim>\<open>arr.join(sep)\<close>.\<close>

fun join :: "string \<Rightarrow> string list \<Rightarrow> string" where
  "join sep [] = []"
| "join sep [x] = x"
| "join sep (x # y # ys) = x @ sep @ join sep (y # ys)"

text \<open>\<^verbatim>\<open>arr.slice(start, stop)\<close> for indices that are not negative.\<close>

definition slice :: "nat \<Rightarrow> nat \<Rightarrow> 'a list \<Rightarrow> 'a list" where
  "slice start stop xs = take (stop - start) (drop start xs)"

text \<open>The decimal numeral of a number that is not negative, as string concatenation prints it.\<close>

definition digit_char :: "nat \<Rightarrow> char" where
  "digit_char d = ''0123456789'' ! (d mod 10)"

function show_nat :: "nat \<Rightarrow> string" where
  "show_nat n = (if n < 10 then [digit_char n] else show_nat (n div 10) @ [digit_char n])"
  by pat_completeness auto
termination
  by (relation "measure id") auto

declare show_nat.simps [simp del]

section \<open>The line-mapped error reporter\<close>

datatype error_kind =
  ConfigError | FetchError | SyntaxError | TypeError | RangeError | EvalError

record js_error =
  err_kind :: error_kind
  err_message :: string
  err_path :: "string option"

text \<open>
  \<^verbatim>\<open>rethrow(err, str, filename, lineno)\<close>. The callback of \<^verbatim>\<open>map\<close> gets the line and its
  index \<open>i\<close> in the slice; \<open>lineno\<close> is the number the assembled program keeps in \<^verbatim>\<open>__line\<close>,
  a natural number, so \<^verbatim>\<open>Math.max(lineno - 3, 0)\<close> is the truncated difference.
\<close>

definition context_line :: "nat \<Rightarrow> nat \<Rightarrow> nat \<times> string \<Rightarrow> string" where
  "context_line lineno start il =
     (let curr = fst il + start + 1
      in (if curr = lineno then '' >> '' else ''    '') @ show_nat curr @ ''| '' @ snd il)"

definition window_start :: "nat \<Rightarrow> nat" where
  "window_start lineno = max (lineno - 3) 0"

definition window_end :: "string list \<Rightarrow> nat \<Rightarrow> nat" where
  "window_end lines lineno = min (length lines) (lineno + 3)"

definition rethrow_context :: "string \<Rightarrow> nat \<Rightarrow> string" where
  "rethrow_context str lineno =
     (let lines = split_on nl str;
          start = window_start lineno;
          stop = window_end lines lineno;
          shown = slice start stop lines
      in join [nl] (map (context_line lineno start) (zip [0 ..< length shown] shown)))"

definition rethrow :: "js_error \<Rightarrow> string \<Rightarrow> string option \<Rightarrow> nat \<Rightarrow> js_error + 'a" where
  "rethrow err str filename lineno =
     Inl (err\<lparr> err_path := filename,
                err_message :=
                  (case filename of None \<Rightarrow> ''ejs'' | Some f \<Rightarrow> if f = [] then ''ejs'' else f)
                  @ '':'' @ show_nat lineno @ [nl]
                  @ rethrow_context str lineno @ [nl, nl]
                  @ err_message err \<rparr>)"

section \<open>The host environment\<close>

text \<open>
  What the engine takes from Node: the \<^verbatim>\<open>path\<close> module, the file system behind
  \<^verbatim>\<open>readFile\<close> (\<open>None\<close>: the read throws), the parser behind \<^verbatim>\<open>new Function(params, body)\<close>
  (\<open>Some msg\<close>: a SyntaxError with that message), and the source texts
  \<^verbatim>\<open>Function.prototype.toString\<close> gives for the functions the distribution mode embeds.
\<close>

record host =
  path_resolve :: "string \<Rightarrow> string \<Rightarrow> string"
  path_dirname :: "string \<Rightarrow> string"
  path_extname :: "string \<Rightarrow> string"
  read_file :: "string \<Rightarrow> string option"
  parse_error :: "string \<Rightarrow> string \<Rightarrow> string option"
  escape_source :: string
  shallowCopy_source :: string
  rethrow_source :: string
  clientIncludeString :: string
  returnedFn_source :: string

subsection \<open>A POSIX instance of the path module\<close>

definition is_slash :: "char \<Rightarrow> bool" where
  "is_slash c = (c = CHR ''/'')"

text \<open>\<^verbatim>\<open>normalizeString\<close> below the root: empty and \<^verbatim>\<open>.\<close> segments go, \<^verbatim>\<open>..\<close> drops one.\<close>

definition norm_step :: "string list \<Rightarrow> string \<Rightarrow> string list" where
  "norm_step acc seg =
     (if seg = [] \<or> seg = ''.'' then acc else if seg = ''..'' then butlast acc else acc @ [seg])"

definition posix_resolve :: "string \<Rightarrow> string \<Rightarrow> string \<Rightarrow> string" where
  "posix_resolve cwd a b =
     (let ab = (if starts_with ''/'' b then b
                else if starts_with ''/'' a then a @ ''/'' @ b
                else cwd @ ''/'' @ a @ ''/'' @ b)
      in ''/'' @ join ''/'' (foldl norm_step [] (split_on (CHR ''/'') ab)))"

definition posix_dirname :: "string \<Rightarrow> string" where
  "posix_dirname p =
     (if p = [] then ''.''
      else (let r = dropWhile (\<lambda>c. \<not> is_slash c) (dropWhile is_slash (rev (tl p)))
            in if r = [] then (if is_slash (hd p) then ''/'' else ''.'')
               else if is_slash (hd p) \<and> length r = 1 then ''//''
               else take (length r) p))"

definition posix_extname :: "string \<Rightarrow> string" where
  "posix_extname p =
     (let base = rev (takeWhile (\<lambda>c. \<not> is_slash c) (dropWhile is_slash (rev p)));
          ext = CHR ''.'' # rev (takeWhile (\<lambda>c. c \<noteq> CHR ''.'') (rev base))
      in if CHR ''.'' \<notin> set base \<or> length ext = length base \<or> base = ''..'' then [] else ext)"

definition posix_host :: "string \<Rightarrow> (string \<Rightarrow> string option) \<Rightarrow> host" where
  "posix_host cwd fs =
     \<lparr> path_resolve = posix_resolve cwd, path_dirname = posix_dirname,
       path_extname = posix_extname, read_file = fs, parse_error = (\<lambda>ps body. None),
       escape_source = ''function escapeXML(markup) {}'',
       shallowCopy_source = ''function shallowCopy(to, from) {}'',
       rethrow_source = ''function rethrow(err, str, filename, lineno) {}'',
       clientIncludeString = ''function (path, includeData) {}'',
       returnedFn_source = ''function (data) {}'' \<rparr>"

section \<open>Include path resolution\<close>

text \<open>\<^verbatim>\<open>exports.resolveInclude(name, filename, isDir)\<close>.\<close>

definition resolveInclude :: "host \<Rightarrow> string \<Rightarrow> string \<Rightarrow> bool \<Rightarrow> string" where
  "resolveInclude h name filename isDir =
     (let includePath = path_resolve h (if isDir then filename else path_dirname h filename) name;
          ext = path_extname h name
      in if ext = [] then includePath @ ''.ejs'' else includePath)"

definition relative_include_error :: js_error where
  "relative_include_error =
     \<lparr> err_kind = ConfigError,
       err_message = ''`include` use relative path requires the '' @ [squote] @ ''filename''
                       @ [squote] @ '' option.'',
       err_path = None \<rparr>"

text \<open>
  \<^verbatim>\<open>getIncludePath(path, filename, root)\<close>. \<^verbatim>\<open>!filename\<close> holds for \<^verbatim>\<open>undefined\<close> (\<open>None\<close>) and
  for the empty string; \<^verbatim>\<open>root || '/'\<close> likewise.
\<close>

definition falsy_string :: "string option \<Rightarrow> bool" where
  "falsy_string s = (case s of None \<Rightarrow> True | Some x \<Rightarrow> x = [])"

definition getIncludePath :: "host \<Rightarrow> string \<Rightarrow> string option \<Rightarrow> string option \<Rightarrow> js_error + string" where
  "getIncludePath h p filename root =
     (if starts_with ''/'' p
      then Inr (resolveInclude h (dropWhile is_slash p)
                  (if falsy_string root then ''/'' else the root) True)
      else if falsy_string filename then Inl relative_include_error
      else Inr (resolveInclude h p (the filename) False))"

section \<open>String operations of the source generator\<close>

text \<open>
  \<^verbatim>\<open>str.replace(/p/g, r)\<close> and \<^verbatim>\<open>str.match(/p/g).length\<close> for a pattern \<open>p\<close> that is a literal,
  non-empty string: matches are found left to right and do not overlap.
\<close>

fun replace_all :: "string \<Rightarrow> string \<Rightarrow> string \<Rightarrow> string" where
  "replace_all p r [] = []"
| "replace_all p r (c # cs) =
     (if p \<noteq> [] \<and> starts_with p (c # cs) then r @ replace_all p r (drop (length p - 1) cs)
      else c # replace_all p r cs)"

fun count_matches :: "string \<Rightarrow> string \<Rightarrow> nat" where
  "count_matches p [] = 0"
| "count_matches p (c # cs) =
     (if p \<noteq> [] \<and> starts_with p (c # cs) then Suc (count_matches p (drop (length p - 1) cs))
      else count_matches p cs)"

fun contains :: "string \<Rightarrow> string \<Rightarrow> bool" where
  "contains p [] = (p = [])"
| "contains p (c # cs) = (starts_with p (c # cs) \<or> contains p cs)"

text \<open>The two-character escapes the generator writes for a line feed and a carriage return.\<close>

definition esc_n :: string where
  "esc_n = [bslash, CHR ''n'']"

definition esc_r :: string where
  "esc_r = [bslash, CHR ''r'']"

text \<open>\<^verbatim>\<open>.replace(/'|\\/g, '\\$&')\<close>, \<^verbatim>\<open>.replace(/\n/g, '\\n')\<close> and \<^verbatim>\<open>.replace(/\r/g, '\\r')\<close>.\<close>

definition escape_quotes :: "string \<Rightarrow> string" where
  "escape_quotes t = concat (map (\<lambda>c. if c = squote \<or> c = bslash then [bslash, c] else [c]) t)"

definition escape_nl :: "string \<Rightarrow> string" where
  "escape_nl t = concat (map (\<lambda>c. if c = nl then esc_n else [c]) t)"

definition escape_cr :: "string \<Rightarrow> string" where
  "escape_cr t = concat (map (\<lambda>c. if c = cr then esc_r else [c]) t)"

text \<open>
  \<^verbatim>\<open>.replace(/^\s+|\s+$/gm, '')\<close>, the whitespace trim of every physical line. The flag says
  whether the position is at the start of a line (\<^verbatim>\<open>^\<close> under the \<^verbatim>\<open>m\<close> flag); \<^verbatim>\<open>\s+$\<close> takes the
  longest run of whitespace that ends before a line terminator or at the end.
\<close>

definition is_line_end :: "string \<Rightarrow> bool" where
  "is_line_end s = (case s of [] \<Rightarrow> True | c # cs \<Rightarrow> \<not> is_dot c)"

definition trailing_space_match :: "string \<Rightarrow> nat option" where
  "trailing_space_match s =
     find (\<lambda>k. is_line_end (drop k s)) (rev [1 ..< Suc (length (takeWhile is_space s))])"

fun trim_lines :: "bool \<Rightarrow> string \<Rightarrow> string" where
  "trim_lines bol [] = []"
| "trim_lines bol (c # cs) =
     (let run = takeWhile is_space (c # cs)
      in if bol \<and> run \<noteq> [] then trim_lines (\<not> is_dot (last run)) (drop (length run - 1) cs)
         else (case trailing_space_match (c # cs) of
                 Some k \<Rightarrow> trim_lines (\<not> is_dot ((c # cs) ! (k - 1))) (drop (k - 1) cs)
               | None \<Rightarrow> c # trim_lines (\<not> is_dot c) cs))"

definition rmWhitespace_text :: "string \<Rightarrow> string" where
  "rmWhitespace_text t = trim_lines True (filter (\<lambda>c. c \<noteq> cr) t)"

text \<open>\<^verbatim>\<open>JSON.stringify\<close> of a string, and of \<^verbatim>\<open>undefined\<close> as string concatenation prints it.\<close>

definition hex_digit :: "nat \<Rightarrow> char" where
  "hex_digit d = ''0123456789abcdef'' ! (d mod 16)"

definition json_char :: "char \<Rightarrow> string" where
  "json_char c =
     (if c = dquote then [bslash, dquote]
      else if c = bslash then [bslash, bslash]
      else if c = CHR 0x08 then [bslash, CHR ''b'']
      else if c = CHR 0x09 then [bslash, CHR ''t'']
      else if c = nl then [bslash, CHR ''n'']
      else if c = CHR 0x0C then [bslash, CHR ''f'']
      else if c = cr then [bslash, CHR ''r'']
      else if (of_char c :: nat) < 32
        then [bslash] @ ''u00'' @ [hex_digit (of_char c div 16), hex_digit (of_char c)]
      else [c])"

definition json_string :: "string \<Rightarrow> string" where
  "json_string s = [dquote] @ concat (map json_char s) @ [dquote]"

definition json_string_opt :: "string option \<Rightarrow> string" where
  "json_string_opt s = (case s of None \<Rightarrow> ''undefined'' | Some x \<Rightarrow> json_string x)"

text \<open>
  \<^verbatim>\<open>str.replace(/needle/, repl)\<close> with a string \<open>repl\<close>: the first occurrence is replaced by the
  expansion of \<open>repl\<close>, in which \<^verbatim>\<open>$$\<close>, \<^verbatim>\<open>$&\<close>, \<^verbatim>\<open>$`\<close> and \<^verbatim>\<open>$'\<close> stand for a dollar sign, the
  match, the text before it and the text after it (the patterns have no groups).
\<close>

fun get_substitution :: "string \<Rightarrow> string \<Rightarrow> string \<Rightarrow> string \<Rightarrow> string" where
  "get_substitution m bef aft [] = []"
| "get_substitution m bef aft [c] = [c]"
| "get_substitution m bef aft (c # d # ds) =
     (if c \<noteq> CHR ''$'' then c # get_substitution m bef aft (d # ds)
      else if d = CHR ''$'' then CHR ''$'' # get_substitution m bef aft ds
      else if d = CHR ''&'' then m @ get_substitution m bef aft ds
      else if d = CHR 0x60 then bef @ get_substitution m bef aft ds
      else if d = squote then aft @ get_substitution m bef aft ds
      else c # get_substitution m bef aft (d # ds))"

text \<open>
  The scan of a replacement text reaches the pattern \<^verbatim>\<open>$'\<close>: the patterns are read from the
  left, two characters each, so this is a quote directly behind an odd number of dollar
  signs.
\<close>

fun expands_after :: "string \<Rightarrow> bool" where
  "expands_after [] = False"
| "expands_after [c] = False"
| "expands_after (c # d # ds) =
     (if c \<noteq> CHR ''$'' then expands_after (d # ds)
      else if d = CHR ''$'' \<or> d = CHR ''&'' \<or> d = CHR 0x60 then expands_after ds
      else if d = squote then True
      else expands_after (d # ds))"

fun split_at_first :: "string \<Rightarrow> string \<Rightarrow> (string \<times> string) option" where
  "split_at_first p [] = (if p = [] then Some ([], []) else None)"
| "split_at_first p (c # cs) =
     (if starts_with p (c # cs) then Some ([], drop (length p) (c # cs))
      else map_option (\<lambda>ba. (c # fst ba, snd ba)) (split_at_first p cs))"

definition replace_first :: "string \<Rightarrow> string \<Rightarrow> string \<Rightarrow> string" where
  "replace_first needle repl s =
     (case split_at_first needle s of
        None \<Rightarrow> s
      | Some ba \<Rightarrow> fst ba @ get_substitution needle (fst ba) (snd ba) repl @ snd ba)"

text \<open>\<^verbatim>\<open>indexOf\<close>, \<^verbatim>\<open>lastIndexOf\<close> (\<open>- 1\<close> when absent) and \<^verbatim>\<open>substr(start, length)\<close>.\<close>

definition index_of :: "char \<Rightarrow> string \<Rightarrow> int" where
  "index_of c s = (if c \<in> set s then int (length (takeWhile (\<lambda>x. x \<noteq> c) s)) else - 1)"

definition last_index_of :: "char \<Rightarrow> string \<Rightarrow> int" where
  "last_index_of c s =
     (if c \<in> set s then int (length s) - 1 - int (length (takeWhile (\<lambda>x. x \<noteq> c) (rev s)))
      else - 1)"

definition substr :: "int \<Rightarrow> int \<Rightarrow> string \<Rightarrow> string" where
  "substr start len s =
     (let n = int (length s);
          b = (if start < 0 then max (n + start) 0 else min start n);
          l = min (max len 0) (n - b)
      in take (nat l) (drop (nat b) s))"

section \<open>The tag grammar\<close>

text \<open>
  The matcher is the regular expression
  \<^verbatim>\<open>(([(\\r)(\\\\n)\s]*)(<%(?!%)[=\-_#]?)\s*(.*?)\s*([\-_]?%>)([(\\r)(\\\\n)\s]*))\<close>
  with \<^verbatim>\<open>%\<close> replaced by the delimiter. A backtracking matcher tries the alternatives of
  each part in a fixed order; each part is modelled as the list of its alternatives in that
  order (what it consumed, what is left), and the expression as the list of all its matches
  at a position, of which the engine takes the first.

  The bracket expression \<^verbatim>\<open>[(\\r)(\\\\n)\s]\<close> is a class of single characters: the two
  parentheses, the backslash, the letters \<open>r\<close> and \<open>n\<close>, and whitespace.

  Modelled from the spec: \<^verbatim>\<open>utils.escapeRegExpChars\<close> (\<^verbatim>\<open>lib/utils.js\<close>) is not among the
  sources; the delimiter is taken to stand for itself in the expression, as the tag-opening
  and tag-closing sequences of the spec do.
\<close>

definition in_bracket :: "char \<Rightarrow> bool" where
  "in_bracket c = (c \<in> set ''()rn'' \<or> c = bslash \<or> is_space c)"

definition greedy_class :: "(char \<Rightarrow> bool) \<Rightarrow> string \<Rightarrow> (string \<times> string) list" where
  "greedy_class P s = map (\<lambda>k. (take k s, drop k s)) (rev [0 ..< Suc (length (takeWhile P s))])"

definition lazy_class :: "(char \<Rightarrow> bool) \<Rightarrow> string \<Rightarrow> (string \<times> string) list" where
  "lazy_class P s = map (\<lambda>k. (take k s, drop k s)) [0 ..< Suc (length (takeWhile P s))]"

definition opt_class :: "(char \<Rightarrow> bool) \<Rightarrow> string \<Rightarrow> (string \<times> string) list" where
  "opt_class P s = (case s of [] \<Rightarrow> [([], [])] | c # cs \<Rightarrow> (if P c then [([c], cs)] else []) @ [([], s)])"

definition lit :: "string \<Rightarrow> string \<Rightarrow> (string \<times> string) list" where
  "lit p s = (if starts_with p s then [(p, drop (length p) s)] else [])"

text \<open>The captures of a match: before, prefix, content, suffix, after; and the rest of the text.\<close>

definition tag_matches :: "string \<Rightarrow> string \<Rightarrow> (string \<times> string \<times> string \<times> string \<times> string \<times> string) list" where
  "tag_matches d s =
     [(bef, opn @ md, content, sm @ cl, aft, rest).
        (bef, s1) \<leftarrow> greedy_class in_bracket s,
        (opn, s2) \<leftarrow> lit (''<'' @ d) s1,
        \<not> starts_with d s2,
        (md, s3) \<leftarrow> opt_class (\<lambda>c. c \<in> set ''=-_#'') s2,
        (ws1, s4) \<leftarrow> greedy_class is_space s3,
        (content, s5) \<leftarrow> lazy_class is_dot s4,
        (ws2, s6) \<leftarrow> greedy_class is_space s5,
        (sm, s7) \<leftarrow> opt_class (\<lambda>c. c \<in> set ''-_'') s6,
        (cl, s8) \<leftarrow> lit (d @ ''>'') s7,
        (aft, rest) \<leftarrow> greedy_class in_bracket s8]"

text \<open>
  With \<^verbatim>\<open>compileDebug\<close> the expression has a second alternative, \<^verbatim>\<open>\\n\<close>: the escape the
  generator wrote for a line feed. The number is the length of the match.
\<close>

datatype regex_match = TagMatch string string string string string | NewlineMatch

definition first_match :: "bool \<Rightarrow> string \<Rightarrow> string \<Rightarrow> (regex_match \<times> nat) option" where
  "first_match dbg d s =
     (case tag_matches d s of
        (b, p, c, sf, a, rest) # ms \<Rightarrow> Some (TagMatch b p c sf a, length s - length rest)
      | [] \<Rightarrow> if dbg \<and> starts_with esc_n s then Some (NewlineMatch, 2) else None)"

text \<open>The rewrites of the captured text around a tag, and of its content.\<close>

text \<open>\<^verbatim>\<open>before.replace(/[\s\t]*$/, '')\<close>.\<close>

definition slurp_before :: "string \<Rightarrow> string" where
  "slurp_before s = rev (dropWhile is_space (rev s))"

text \<open>\<^verbatim>\<open>after.replace(/^[\s\t]*(\\n)?/, '')\<close>.\<close>

definition slurp_after :: "string \<Rightarrow> string" where
  "slurp_after s = (let r = dropWhile is_space s in if starts_with esc_n r then drop 2 r else r)"

text \<open>\<^verbatim>\<open>after.replace(/(\\r)?\\n/, '')\<close>: the first match, wherever it is.\<close>

fun rm_newline :: "string \<Rightarrow> string" where
  "rm_newline [] = []"
| "rm_newline (c # cs) =
     (if starts_with (esc_r @ esc_n) (c # cs) then drop 3 cs
      else if starts_with esc_n (c # cs) then drop 1 cs
      else c # rm_newline cs)"

text \<open>\<^verbatim>\<open>content.replace(/\\n/g, '\n').replace(/\\'/g, "'")\<close>.\<close>

definition unescape_content :: "string \<Rightarrow> string" where
  "unescape_content s = replace_all [bslash, squote] [squote] (replace_all esc_n [nl] s)"

text \<open>\<^verbatim>\<open>content.replace(/;\s*$/, '')\<close>.\<close>

definition strip_semicolon :: "string \<Rightarrow> string" where
  "strip_semicolon s =
     (let r = dropWhile is_space (rev s)
      in if starts_with '';'' r then rev (tl r) else s)"

text \<open>\<^verbatim>\<open>content.match(/^\s*include\s+(\S+)/)\<close>: the captured name.\<close>

definition include_directive :: "string \<Rightarrow> string option" where
  "include_directive s =
     (let s1 = dropWhile is_space s;
          s2 = drop 7 s1;
          name = takeWhile (\<lambda>c. \<not> is_space c) (dropWhile is_space s2)
      in if starts_with ''include'' s1 \<and> takeWhile is_space s2 \<noteq> [] \<and> name \<noteq> []
         then Some name else None)"

text \<open>\<^verbatim>\<open>content.match(/^\s*include\s*\("(.+?)"/)\<close>: the shortest non-empty capture.\<close>

definition include_call :: "string \<Rightarrow> string option" where
  "include_call s =
     (let s1 = dropWhile is_space s;
          s2 = dropWhile is_space (drop 7 s1);
          s3 = drop 2 s2;
          name = take 1 s3 @ takeWhile (\<lambda>c. c \<noteq> dquote) (drop 1 s3)
      in if starts_with ''include'' s1 \<and> starts_with (''('' @ [dquote]) s2 \<and> s3 \<noteq> []
            \<and> list_all is_dot name \<and> starts_with [dquote] (drop (length name) s3)
         then Some name else None)"

text \<open>\<^verbatim>\<open>/^\s*(undefined)|(null)\s*/.test(content)\<close>: the alternation splits the whole pattern.\<close>

definition undefined_or_null :: "string \<Rightarrow> bool" where
  "undefined_or_null s = (starts_with ''undefined'' (dropWhile is_space s) \<or> contains ''null'' s)"

text \<open>
  The final pass, \<^verbatim>\<open>.replace(/<%%|%%>/g, ...)\<close>: a match that starts with \<^verbatim>\<open><\<close> loses its last
  character, any other match its first.
\<close>

fun unescape_literal :: "string \<Rightarrow> string \<Rightarrow> string" where
  "unescape_literal d [] = []"
| "unescape_literal d (c # cs) =
     (if starts_with (''<'' @ d @ d) (c # cs)
        then butlast (''<'' @ d @ d) @ unescape_literal d (drop (length (''<'' @ d @ d) - 1) cs)
      else if starts_with (d @ d @ ''>'') (c # cs)
        then (if c = CHR ''<'' then butlast (d @ d @ ''>'') else tl (d @ d @ ''>''))
             @ unescape_literal d (drop (length (d @ d @ ''>'') - 1) cs)
      else c # unescape_literal d cs)"

section \<open>Options, compiled functions and the state of a compile\<close>

text \<open>
  The options as the \<^verbatim>\<open>Template\<close> constructor stores them in \<^verbatim>\<open>this.opts\<close>. The escape
  function and the context object do not reach the generated text outside the distribution
  mode and are not fields.
\<close>

record options =
  opt_client :: bool
  opt_usePages :: bool
  opt_pages :: "(string \<Rightarrow> string option) option"
  opt_precompile :: "string list"
  opt_loadOnlyOnce :: bool
  opt_compileDebug :: bool
  opt_debug :: bool
  opt_filename :: "string option"
  opt_delimiter :: string
  opt_strict :: bool
  opt_cache :: bool
  opt_rmWhitespace :: bool
  opt_root :: "string option"
  opt_localsName :: string
  opt_with :: bool

text \<open>
  A function value: \<open>RenderFn params body\<close> is what \<^verbatim>\<open>new Function(params, body)\<close> makes,
  \<open>ReturnedFn params body\<close> the closure \<^verbatim>\<open>compile\<close> returns around such a function.
\<close>

datatype compiled = RenderFn string string | ReturnedFn string string

fun toString :: "host \<Rightarrow> compiled \<Rightarrow> string" where
  "toString h (RenderFn ps body) =
     ''function anonymous('' @ ps @ [nl] @ '') {'' @ [nl] @ body @ [nl] @ ''}''"
| "toString h (ReturnedFn ps body) = returnedFn_source h"

text \<open>
  Modelled from the spec: \<^verbatim>\<open>utils.cache\<close> (\<^verbatim>\<open>lib/utils.js\<close> is not among the sources) is the
  GlobalCache, a mapping from filename to compiled program with \<^verbatim>\<open>get\<close>, \<^verbatim>\<open>set\<close> and no
  eviction: the field \<open>cache\<close>.

  The state holds that process-wide cache (\<^verbatim>\<open>exports.cache\<close>), the two mutable fields of the
  \<^verbatim>\<open>Template\<close> object at work, and a counter of the runs of \<^verbatim>\<open>Template.prototype.compile\<close>
  (instrumentation, read by no function).
\<close>

record state =
  cache :: "string \<Rightarrow> compiled option"
  dependencies :: "(string \<times> compiled) list"
  pathStack :: "string option list"
  compilations :: nat

type_synonym 'a effect = "state \<Rightarrow> (js_error + 'a) \<times> state"

definition type_error :: js_error where
  "type_error = \<lparr> err_kind = TypeError, err_message = ''Cannot read property of undefined'', err_path = None \<rparr>"

definition stack_overflow :: js_error where
  "stack_overflow = \<lparr> err_kind = RangeError, err_message = ''Maximum call stack size exceeded'', err_path = None \<rparr>"

definition fetch_error :: "string \<Rightarrow> js_error" where
  "fetch_error filename =
     \<lparr> err_kind = FetchError, err_message = ''ENOENT: no such file or directory, open '' @ filename,
       err_path = None \<rparr>"

text \<open>Assignment to a property of a plain object: an existing key keeps its place.\<close>

definition set_property :: "string \<Rightarrow> 'v \<Rightarrow> (string \<times> 'v) list \<Rightarrow> (string \<times> 'v) list" where
  "set_property k v kvs =
     (if map_of kvs k = None then kvs @ [(k, v)]
      else map (\<lambda>kv. if fst kv = k then (k, v) else kv) kvs)"

section \<open>parseOptions\<close>

record compiledOpts =
  prepended :: string
  globalPrepened :: string
  appended :: string
  globalAppended :: string

definition d_escaped :: "string \<Rightarrow> string" where "d_escaped d = ''<'' @ d @ ''=''"
definition d_raw :: "string \<Rightarrow> string" where "d_raw d = ''<'' @ d @ ''-''"
definition d_whitespaceSlurpingStart :: "string \<Rightarrow> string" where "d_whitespaceSlurpingStart d = ''<'' @ d @ ''_''"
definition d_whitespaceSlurpingEnd :: "string \<Rightarrow> string" where "d_whitespaceSlurpingEnd d = ''_'' @ d @ ''>''"
definition d_comment :: "string \<Rightarrow> string" where "d_comment d = ''<'' @ d @ ''#''"
definition d_scriptlet :: "string \<Rightarrow> string" where "d_scriptlet d = ''<'' @ d"
definition d_rmNewLine :: "string \<Rightarrow> string" where "d_rmNewLine d = ''-'' @ d @ ''>''"

definition parseOptions :: "host \<Rightarrow> options \<Rightarrow> compiledOpts" where
  "parseOptions h opts =
     (let gp0 = (if opt_strict opts then [dquote] @ ''use strict'' @ [dquote] @ '';'' @ [nl] else []);
          gp1 = (if opt_client opts
                 then ''escape = escape || '' @ escape_source h @ '';'' @ [nl]
                      @ ''var __shallowCopy = '' @ shallowCopy_source h @ '';'' @ [nl]
                      @ ''var include = ''
                      @ replace_first ''__locals__'' (opt_localsName opts) (clientIncludeString h)
                      @ '';'' @ [nl]
                      @ ''var __root = '' @ json_string_opt (opt_root opts) @ '';'' @ [nl] @ gp0
                 else gp0);
          gp2 = (if opt_client opts \<and> opt_compileDebug opts
                 then ''rethrow = rethrow || '' @ rethrow_source h @ '';'' @ [nl] @ gp1
                 else gp1);
          p0 = ''var __filename = __filename__;'';
          p1 = (if opt_compileDebug opts
                then p0 @ ''var __line = 1, __lines = __template__;'' @ [nl] @ ''try { '' @ [nl]
                else p0);
          a1 = (if opt_compileDebug opts
                then ''; return __output;'' @ [nl] @ ''} catch (e) {'' @ [nl]
                     @ ''rethrow(e, __lines, __filename, __line);'' @ [nl] @ ''}''
                else []);
          p2 = (if opt_with opts then p1 @ ''with('' @ opt_localsName opts @ '' || {}) {'' @ [nl] else p1);
          a2 = (if opt_with opts then ''}'' @ [nl] @ a1 else a1)
      in \<lparr> prepended = p2 @ ''var __output = '' @ [squote], globalPrepened = gp2,
           appended = a2, globalAppended = [] \<rparr>)"

section \<open>generateSource and the includes\<close>

text \<open>\<^verbatim>\<open>sourceToFunc\<close>: the host's parser may refuse the text.\<close>

definition sourceToFunc :: "host \<Rightarrow> options \<Rightarrow> string \<Rightarrow> js_error + compiled" where
  "sourceToFunc h opts source =
     (let ps = opt_localsName opts @ '', escape, include, rethrow''
      in case parse_error h ps source of
           Some msg \<Rightarrow> Inl \<lparr> err_kind = SyntaxError, err_message = msg, err_path = None \<rparr>
         | None \<Rightarrow> Inr (RenderFn ps source))"

text \<open>
  \<^verbatim>\<open>includeSource(path)\<close>, over the function \<open>incFile\<close> that stands for \<^verbatim>\<open>this.includeFile\<close>.
  The pop is the statement after the call: it is not reached when the call throws.
\<close>

definition includeSource_of ::
  "host \<Rightarrow> (string \<Rightarrow> compiled effect) \<Rightarrow> string \<Rightarrow> string effect" where
  "includeSource_of h incFile p st =
     (case incFile p st of
        (Inl e, st1) \<Rightarrow> (Inl e, st1)
      | (Inr f, st1) \<Rightarrow>
          (let source = toString h f
           in (Inr (substr (index_of (CHR ''{'') source) (last_index_of (CHR ''}'') source) source),
               st1\<lparr> pathStack := butlast (pathStack st1) \<rparr>)))"

text \<open>The include forms inside a tag (the branch under \<^verbatim>\<open>prefix !== delimiter.comment\<close>).\<close>

definition resolve_includes ::
  "host \<Rightarrow> (string \<Rightarrow> compiled effect) \<Rightarrow> options \<Rightarrow> string \<Rightarrow> (string \<times> bool) effect" where
  "resolve_includes h incFile opts content st =
     (case include_directive content of
        Some name \<Rightarrow>
          (case includeSource_of h incFile name st of
             (Inl e, st1) \<Rightarrow> (Inl e, st1)
           | (Inr src, st1) \<Rightarrow> (Inr (''(function () {'' @ src @ ''}).call(this)'', True), st1))
      | None \<Rightarrow>
          (if opt_client opts
           then (case include_call content of
                   Some name \<Rightarrow>
                     (case incFile name st of
                        (Inl e, st1) \<Rightarrow> (Inl e, st1)
                      | (Inr f, st1) \<Rightarrow> (Inr (content, False), st1))
                 | None \<Rightarrow> (Inr (content, False), st))
           else (Inr (content, False), st)))"

text \<open>The \<^verbatim>\<open>switch (prefix)\<close> that writes the code of a tag.\<close>

definition emit ::
  "bool \<Rightarrow> string \<Rightarrow> string \<Rightarrow> string \<Rightarrow> string \<Rightarrow> string \<Rightarrow> bool \<Rightarrow> nat \<Rightarrow> string" where
  "emit dbg d prefix bef content aft included unhandledLine =
     (if prefix = d_escaped d
        then bef @ [squote] @ '' + escape('' @ content
             @ (if dbg then '', __line = '' @ show_nat unhandledLine else []) @ '') + '' @ [squote] @ aft
      else if prefix = d_raw d
        then bef @ [squote] @ '' + (''
             @ (if dbg then ''__line = '' @ show_nat unhandledLine @ '', '' else [])
             @ strip_semicolon content @ '') + '' @ [squote] @ aft
      else if prefix = d_scriptlet d \<or> prefix = d_whitespaceSlurpingStart d
        then bef @ [squote] @ '';'' @ [nl]
             @ (if dbg then ''__line = '' @ show_nat unhandledLine @ '';'' else [])
             @ (if included then '';__output += '' @ content else content)
             @ '';'' @ [nl] @ ''__output += '' @ [squote] @ aft
      else if prefix = d_comment d
        then bef @ [squote] @ ''/*'' @ content @ ''*/ + '' @ [squote] @ aft
      else bef @ content @ aft)"

text \<open>
  The callback of the tag replacement, for a tag match with its five captures. It returns
  the replacement text and the line counter. The return for a comment tag comes before
  the \<^verbatim>\<open>switch\<close>, whose comment case is never reached.
\<close>

definition tag_callback ::
  "host \<Rightarrow> (string \<Rightarrow> compiled effect) \<Rightarrow> options \<Rightarrow> nat
     \<Rightarrow> string \<Rightarrow> string \<Rightarrow> string \<Rightarrow> string \<Rightarrow> string \<Rightarrow> (string \<times> nat) effect" where
  "tag_callback h incFile opts line bef prefix content suffix aft st =
     (let d = opt_delimiter opts;
          dbg = opt_compileDebug opts;
          unhandledLine = (if dbg then line + count_matches esc_n bef else line);
          line1 = (if dbg then unhandledLine + count_matches esc_n content + count_matches esc_n aft
                   else line);
          bef1 = (if prefix = d_whitespaceSlurpingStart d then slurp_before bef else bef);
          aft1 = (if suffix = d_whitespaceSlurpingEnd d \<or> opt_rmWhitespace opts then slurp_after aft
                    else if suffix = d_rmNewLine d then rm_newline aft
                    else aft)
      in if prefix = d_comment d then (Inr ([], line1), st)
         else (case (if prefix \<noteq> d_comment d
                     then resolve_includes h incFile opts (unescape_content content) st
                     else (Inr (unescape_content content, False), st)) of
                 (Inl e, st1) \<Rightarrow> (Inl e, st1)
               | (Inr ci, st1) \<Rightarrow>
                   (let content1 = (if prefix \<noteq> d_comment d \<and> undefined_or_null (fst ci)
                                    then [squote, squote] else fst ci)
                    in (Inr (emit dbg d prefix bef1 content1 aft1 (snd ci) unhandledLine, line1),
                        st1))))"

text \<open>
  \<^verbatim>\<open>template.replace(compiledOpts.regex, callback)\<close>: the text is scanned from the left; where
  the expression matches, the callback's text replaces the match and the scan goes on behind
  it. The line counter is the variable \<^verbatim>\<open>line\<close> of \<^verbatim>\<open>generateSource\<close>.
\<close>

fun replace_tags ::
  "host \<Rightarrow> (string \<Rightarrow> compiled effect) \<Rightarrow> options \<Rightarrow> nat \<Rightarrow> string \<Rightarrow> string effect" where
  "replace_tags h incFile opts line [] st = (Inr [], st)"
| "replace_tags h incFile opts line (c # cs) st =
     (case first_match (opt_compileDebug opts) (opt_delimiter opts) (c # cs) of
        None \<Rightarrow>
          (case replace_tags h incFile opts line cs st of
             (Inl e, st1) \<Rightarrow> (Inl e, st1)
           | (Inr out, st1) \<Rightarrow> (Inr (c # out), st1))
      | Some (NewlineMatch, n) \<Rightarrow>
          (case replace_tags h incFile opts (Suc line) (drop (n - 1) cs) st of
             (Inl e, st1) \<Rightarrow> (Inl e, st1)
           | (Inr out, st1) \<Rightarrow> (Inr (esc_n @ out), st1))
      | Some (TagMatch b p ct sf a, n) \<Rightarrow>
          (case tag_callback h incFile opts line b p ct sf a st of
             (Inl e, st1) \<Rightarrow> (Inl e, st1)
           | (Inr ol, st1) \<Rightarrow>
               (case replace_tags h incFile opts (snd ol) (drop (n - 1) cs) st1 of
                  (Inl e, st2) \<Rightarrow> (Inl e, st2)
                | (Inr out, st2) \<Rightarrow> (Inr (fst ol @ out), st2))))"

text \<open>
  The text between the prologue and the closing quote:
  \<^verbatim>\<open>template.replace(regex, callback).replace(literalRegex, ...)\<close> on the escaped template.
\<close>

definition template_body ::
  "host \<Rightarrow> (string \<Rightarrow> compiled effect) \<Rightarrow> options \<Rightarrow> string \<Rightarrow> string effect" where
  "template_body h incFile opts template st =
     (let t1 = (if opt_rmWhitespace opts then rmWhitespace_text template else template);
          t2 = escape_nl (escape_quotes t1);
          t3 = (if \<not> opt_rmWhitespace opts then escape_cr t2 else t2)
      in case replace_tags h incFile opts 1 t3 st of
           (Inl e, st1) \<Rightarrow> (Inl e, st1)
         | (Inr out, st1) \<Rightarrow> (Inr (unescape_literal (opt_delimiter opts) out), st1))"

text \<open>The prologue of \<^verbatim>\<open>generateSource\<close>: the two placeholders of \<^verbatim>\<open>prepended\<close> filled in.\<close>

definition prologue :: "host \<Rightarrow> options \<Rightarrow> string \<Rightarrow> string option \<Rightarrow> string" where
  "prologue h opts template filename =
     (let p1 = replace_first ''__filename__'' (json_string_opt filename) (prepended (parseOptions h opts))
      in if opt_compileDebug opts then replace_first ''__template__'' (json_string template) p1 else p1)"

text \<open>
  \<^verbatim>\<open>generateSource(template, filename)\<close> over \<open>incFile\<close>. An \<^verbatim>\<open>undefined\<close> template (a page
  that is missing) is a TypeError at the first \<^verbatim>\<open>template.replace\<close>.
\<close>

definition generateSource_with ::
  "host \<Rightarrow> (string \<Rightarrow> compiled effect) \<Rightarrow> options \<Rightarrow> string option \<Rightarrow> string option \<Rightarrow> string effect" where
  "generateSource_with h incFile opts template filename st =
     (case template of
        None \<Rightarrow> (Inl type_error, st)
      | Some t \<Rightarrow>
          (case template_body h incFile opts t st of
             (Inl e, st1) \<Rightarrow> (Inl e, st1)
           | (Inr body, st1) \<Rightarrow>
               (Inr (prologue h opts t filename @ body @ [squote] @ appended (parseOptions h opts)),
                st1)))"

text \<open>
  \<^verbatim>\<open>includeFile(path)\<close> over the function \<open>gen\<close> that stands for \<^verbatim>\<open>this.generateSource\<close>.
  \<open>clientFilename\<close> is the key of the dependency map in the distribution mode.
\<close>

definition clientFilename :: "options \<Rightarrow> string \<Rightarrow> string option \<Rightarrow> js_error + string option" where
  "clientFilename opts p parentFilename =
     (if \<not> opt_client opts then Inr None
      else if starts_with ''/'' p
        then Inr (Some ((case opt_root opts of None \<Rightarrow> ''undefined'' | Some r \<Rightarrow> r) @ p))
      else (case parentFilename of
              None \<Rightarrow> Inl type_error
            | Some pf \<Rightarrow> Inr (Some (substr 0 (last_index_of (CHR ''/'') pf + 1) pf @ p))))"

definition fetch_template :: "host \<Rightarrow> options \<Rightarrow> string \<Rightarrow> string \<Rightarrow> js_error + string option" where
  "fetch_template h opts p filename =
     (if opt_usePages opts
      then (case opt_pages opts of None \<Rightarrow> Inl type_error | Some pg \<Rightarrow> Inr (pg p))
      else (case read_file h filename of
              None \<Rightarrow> Inl (fetch_error filename)
            | Some t \<Rightarrow> Inr (Some t)))"

definition load_include ::
  "host \<Rightarrow> (string option \<Rightarrow> string option \<Rightarrow> string effect) \<Rightarrow> options \<Rightarrow> string \<Rightarrow> string
     \<Rightarrow> compiled effect" where
  "load_include h gen opts p filename st =
     (case fetch_template h opts p filename of
        Inl e \<Rightarrow> (Inl e, st)
      | Inr template \<Rightarrow>
          (case gen template (Some filename) st of
             (Inl e, st1) \<Rightarrow> (Inl e, st1)
           | (Inr source, st1) \<Rightarrow>
               (case sourceToFunc h opts source of
                  Inl e \<Rightarrow> (Inl e, st1)
                | Inr f \<Rightarrow> (Inr f, st1))))"

definition top_of :: "string option list \<Rightarrow> string option" where
  "top_of stack = (if stack = [] then None else last stack)"

text \<open>The filename of an include: \<^verbatim>\<open>opts.usePages ? path : getIncludePath(...)\<close>.\<close>

definition include_target :: "host \<Rightarrow> options \<Rightarrow> string \<Rightarrow> state \<Rightarrow> js_error + string" where
  "include_target h opts p st =
     (if opt_usePages opts then Inr p
      else getIncludePath h p (top_of (pathStack st)) (opt_root opts))"

definition includeFile_with ::
  "host \<Rightarrow> (string option \<Rightarrow> string option \<Rightarrow> string effect) \<Rightarrow> options \<Rightarrow> string
     \<Rightarrow> compiled effect" where
  "includeFile_with h gen opts p st =
     (let parentFilename = top_of (pathStack st)
      in case include_target h opts p st of
           Inl e \<Rightarrow> (Inl e, st)
         | Inr filename \<Rightarrow>
             (case clientFilename opts p parentFilename of
                Inl e \<Rightarrow> (Inl e, st)
              | Inr ck \<Rightarrow>
                  (let key = (case ck of Some k \<Rightarrow> k | None \<Rightarrow> filename);
                       depFunc = map_of (dependencies st) key;
                       st1 = st\<lparr> pathStack := pathStack st @ [Some filename] \<rparr>;
                       fromCache = (if depFunc = None \<and> opt_cache opts \<and> \<not> opt_client opts
                                    then cache st1 filename else None);
                       func0 = (case depFunc of Some f \<Rightarrow> Some f | None \<Rightarrow> fromCache)
                   in case (case func0 of
                              Some f \<Rightarrow> (Inr f, st1)
                            | None \<Rightarrow> load_include h gen opts p filename st1) of
                        (Inl e, st2) \<Rightarrow> (Inl e, st2)
                      | (Inr func, st2) \<Rightarrow>
                          (let st3 = (if depFunc = None \<and> (opt_loadOnlyOnce opts \<or> opt_client opts)
                                      then st2\<lparr> dependencies := set_property key func (dependencies st2) \<rparr>
                                      else st2);
                               st4 = (if fromCache = None \<and> opt_cache opts \<and> \<not> opt_client opts
                                      then st3\<lparr> cache := (cache st3)(filename \<mapsto> func) \<rparr>
                                      else st3)
                           in (Inr func, st4)))))"

text \<open>
  The recursion of \<^verbatim>\<open>generateSource\<close> through the includes of the included templates. The
  first argument bounds the depth of the nesting, as the call stack of the host does: an
  include deeper than that ends in the host's RangeError (nothing in the source detects an
  include cycle).
\<close>

primrec generateSource ::
  "nat \<Rightarrow> host \<Rightarrow> options \<Rightarrow> string option \<Rightarrow> string option \<Rightarrow> string effect" where
  "generateSource 0 h opts = (\<lambda>template filename st. (Inl stack_overflow, st))"
| "generateSource (Suc n) h opts =
     generateSource_with h (includeFile_with h (generateSource n h opts) opts) opts"

definition includeFile :: "nat \<Rightarrow> host \<Rightarrow> options \<Rightarrow> string \<Rightarrow> compiled effect" where
  "includeFile n h opts = includeFile_with h (generateSource n h opts) opts"

definition includeSource :: "nat \<Rightarrow> host \<Rightarrow> options \<Rightarrow> string \<Rightarrow> string effect" where
  "includeSource n h opts = includeSource_of h (includeFile n h opts)"

text \<open>
  The \<^verbatim>\<open>include(path, includeData)\<close> closure of a compiled template. \<open>run\<close> stands for the
  call of the included function on the merged data: it may reach \<^verbatim>\<open>include\<close> again, so it
  takes and returns the state. The pop is the statement after that call.
\<close>

definition runtime_include ::
  "nat \<Rightarrow> host \<Rightarrow> options \<Rightarrow> (compiled \<Rightarrow> string effect) \<Rightarrow> string \<Rightarrow> string effect" where
  "runtime_include n h opts run p st =
     (case includeFile n h opts p st of
        (Inl e, st1) \<Rightarrow> (Inl e, st1)
      | (Inr f, st1) \<Rightarrow>
          (case run f st1 of
             (Inl e, st2) \<Rightarrow> (Inl e, st2)
           | (Inr out, st2) \<Rightarrow> (Inr out, st2\<lparr> pathStack := butlast (pathStack st2) \<rparr>)))"

section \<open>Data and option objects\<close>

text \<open>
  The values a data or options object holds. An object is the list of its own properties in
  insertion order; a property that is absent reads as \<^verbatim>\<open>undefined\<close>. Accessor properties,
  symbols and prototype chains are outside the model.
\<close>

datatype jsval =
  JUndefined | JNull | JBool bool | JNum int | JStr string
  | JArr "jsval list" | JObj "(string \<times> jsval) list"

fun truthy :: "jsval \<Rightarrow> bool" where
  "truthy JUndefined = False"
| "truthy JNull = False"
| "truthy (JBool b) = b"
| "truthy (JNum i) = (i \<noteq> 0)"
| "truthy (JStr s) = (s \<noteq> [])"
| "truthy (JArr xs) = True"
| "truthy (JObj kvs) = True"

fun get_prop :: "jsval \<Rightarrow> string \<Rightarrow> jsval" where
  "get_prop (JObj kvs) k = (case map_of kvs k of None \<Rightarrow> JUndefined | Some v \<Rightarrow> v)"
| "get_prop v k = JUndefined"

fun set_prop :: "string \<Rightarrow> jsval \<Rightarrow> jsval \<Rightarrow> jsval" where
  "set_prop k v (JObj kvs) = JObj (set_property k v kvs)"
| "set_prop k v w = w"

fun has_property :: "jsval \<Rightarrow> string \<Rightarrow> bool" where
  "has_property (JObj kvs) k = (map_of kvs k \<noteq> None)"
| "has_property v k = False"

fun str_prop :: "jsval \<Rightarrow> string \<Rightarrow> string option" where
  "str_prop v k = (case get_prop v k of JStr s \<Rightarrow> Some s | _ \<Rightarrow> None)"

text \<open>
  The key a filename is stored under in the cache object: the string itself, and the string
  \<^verbatim>\<open>undefined\<close> for a filename that is absent.
\<close>

definition cache_key :: "string option \<Rightarrow> string" where
  "cache_key f = (case f of None \<Rightarrow> ''undefined'' | Some s \<Rightarrow> s)"

definition OPTS :: "string list" where
  "OPTS = [''cache'', ''filename'', ''delimiter'', ''scope'', ''context'',
           ''debug'', ''compileDebug'', ''client'', ''_with'', ''root'', ''rmWhitespace'',
           ''strict'', ''localsName'', ''usePages'', ''pages'']"

text \<open>\<^verbatim>\<open>cpOptsInData(data, opts)\<close>: the loop over \<^verbatim>\<open>_OPTS\<close>.\<close>

definition cp_one :: "jsval \<Rightarrow> jsval \<Rightarrow> string \<Rightarrow> jsval" where
  "cp_one data opts p = (if get_prop data p \<noteq> JUndefined then set_prop p (get_prop data p) opts else opts)"

definition cpOptsInData :: "jsval \<Rightarrow> jsval \<Rightarrow> jsval" where
  "cpOptsInData data opts = foldl (cp_one data) opts OPTS"

text \<open>
  The \<^verbatim>\<open>Template\<close> constructor: from the options object to \<^verbatim>\<open>this.opts\<close>. The module-wide
  \<^verbatim>\<open>exports.delimiter\<close> and \<^verbatim>\<open>exports.localsName\<close> are taken as the module leaves them (unset,
  and \<^verbatim>\<open>locals\<close>). Option values have the types of the \<^verbatim>\<open>Options\<close> typedef: a value of
  another type reads as absent.
\<close>

definition pages_of :: "jsval \<Rightarrow> (string \<Rightarrow> string option) option" where
  "pages_of v = (case v of JObj kvs \<Rightarrow> Some (\<lambda>k. str_prop (JObj kvs) k) | _ \<Rightarrow> None)"

definition strings_of :: "jsval \<Rightarrow> string list" where
  "strings_of v =
     (case v of JArr xs \<Rightarrow> concat (map (\<lambda>x. case x of JStr s \<Rightarrow> [s] | _ \<Rightarrow> []) xs) | _ \<Rightarrow> [])"

definition Template_options :: "jsval \<Rightarrow> options" where
  "Template_options o0 =
     (let opts = (if truthy o0 then o0 else JObj [])
      in \<lparr> opt_client = truthy (get_prop opts ''client''),
           opt_usePages = truthy (get_prop opts ''usePages''),
           opt_pages = (if truthy (get_prop opts ''usePages'') then pages_of (get_prop opts ''pages'') else None),
           opt_precompile = strings_of (get_prop opts ''precompile''),
           opt_loadOnlyOnce = truthy (get_prop opts ''loadOnlyOnce''),
           opt_compileDebug = (get_prop opts ''compileDebug'' \<noteq> JBool False),
           opt_debug = truthy (get_prop opts ''debug''),
           opt_filename = str_prop opts ''filename'',
           opt_delimiter = (case str_prop opts ''delimiter'' of None \<Rightarrow> ''%'' | Some d \<Rightarrow> if d = [] then ''%'' else d),
           opt_strict = truthy (get_prop opts ''strict''),
           opt_cache = truthy (get_prop opts ''cache''),
           opt_rmWhitespace = truthy (get_prop opts ''rmWhitespace''),
           opt_root = str_prop opts ''root'',
           opt_localsName = (case str_prop opts ''localsName'' of None \<Rightarrow> ''locals'' | Some l \<Rightarrow> if l = [] then ''locals'' else l),
           opt_with = (\<not> truthy (get_prop opts ''strict'') \<and> get_prop opts ''_with'' \<noteq> JBool False) \<rparr>)"

definition default_options :: options where
  "default_options = Template_options JUndefined"

section \<open>Template.prototype.compile and exports.compile\<close>

fun precompile_all :: "nat \<Rightarrow> host \<Rightarrow> options \<Rightarrow> string list \<Rightarrow> unit effect" where
  "precompile_all n h opts [] st = (Inr (), st)"
| "precompile_all n h opts (p # ps) st =
     (case includeFile n h opts p st of
        (Inl e, st1) \<Rightarrow> (Inl e, st1)
      | (Inr f, st1) \<Rightarrow> precompile_all n h opts ps st1)"

definition json_object :: "(string \<times> string) list \<Rightarrow> string" where
  "json_object kvs = ''{'' @ join '','' (map (\<lambda>kv. json_string (fst kv) @ '':'' @ json_string (snd kv)) kvs) @ ''}''"

definition annotate_syntax_error :: "options \<Rightarrow> js_error \<Rightarrow> js_error" where
  "annotate_syntax_error opts e =
     e\<lparr> err_message :=
          err_message e
          @ (if falsy_string (opt_filename opts) then [] else '' in '' @ the (opt_filename opts))
          @ '' while compiling ejs'' @ [nl, nl]
          @ ''If the above error is not helpful, you may want to try EJS-Lint:'' @ [nl]
          @ ''https://github.com/RyanZim/EJS-Lint'' \<rparr>"

text \<open>
  \<^verbatim>\<open>Template.prototype.compile\<close>. The first argument is the depth left for the includes. The
  output of \<^verbatim>\<open>console.log\<close> under \<^verbatim>\<open>debug\<close> is not modelled.
\<close>

definition Template_compile :: "nat \<Rightarrow> host \<Rightarrow> options \<Rightarrow> string \<Rightarrow> compiled effect" where
  "Template_compile n h opts templateText st0 =
     (let st = st0\<lparr> compilations := Suc (compilations st0) \<rparr>;
          co = parseOptions h opts
      in case generateSource (Suc n) h opts (Some templateText) (opt_filename opts) st of
           (Inl e, st1) \<Rightarrow> (Inl e, st1)
         | (Inr src, st1) \<Rightarrow>
             (case precompile_all n h opts (opt_precompile opts) st1 of
                (Inl e, st2) \<Rightarrow> (Inl e, st2)
              | (Inr u, st2) \<Rightarrow>
                  (let source0 = globalPrepened co @ src @ globalAppended co;
                       source = (if opt_client opts
                                 then ''var __dependencies = ''
                                      @ json_object (map (\<lambda>kf. (fst kf, toString h (snd kf))) (dependencies st2))
                                      @ '';'' @ [nl] @ source0
                                 else source0)
                   in case sourceToFunc h opts source of
                        Inl e \<Rightarrow> (Inl (annotate_syntax_error opts e), st2)
                      | Inr f \<Rightarrow>
                          (Inr (if opt_client opts then f
                                else ReturnedFn (opt_localsName opts @ '', escape, include, rethrow'') source),
                           st2))))"

text \<open>The rename of the deprecated \<^verbatim>\<open>scope\<close> option (the warning is not modelled).\<close>

definition scope_compat :: "jsval \<Rightarrow> jsval" where
  "scope_compat opts =
     (if truthy opts \<and> truthy (get_prop opts ''scope'')
      then (case (if truthy (get_prop opts ''context'') then opts
                  else set_prop ''context'' (get_prop opts ''scope'') opts) of
              JObj kvs \<Rightarrow> JObj (filter (\<lambda>kv. fst kv \<noteq> ''scope'') kvs)
            | v \<Rightarrow> v)
      else opts)"

definition cache_consulted :: "jsval \<Rightarrow> bool" where
  "cache_consulted opts =
     (truthy opts \<and> \<not> truthy (get_prop opts ''usePages'') \<and> truthy (get_prop opts ''cache'')
      \<and> \<not> falsy_string (str_prop opts ''filename''))"

text \<open>
  \<^verbatim>\<open>exports.compile(template, opts)\<close>; the template is \<open>None\<close> for \<^verbatim>\<open>undefined\<close> or \<^verbatim>\<open>null\<close>.
  \<^verbatim>\<open>new Template\<close> starts with an empty dependency map and the filename on the path stack.
\<close>

definition exports_compile :: "nat \<Rightarrow> host \<Rightarrow> string option \<Rightarrow> jsval \<Rightarrow> compiled effect" where
  "exports_compile n h template opts0 st =
     (let opts = scope_compat opts0;
          hit = (if cache_consulted opts then cache st (cache_key (str_prop opts ''filename'')) else None)
      in case hit of
           Some fn \<Rightarrow> (Inr fn, st)
         | None \<Rightarrow>
             (case (case template of
                      Some t \<Rightarrow> Inr t
                    | None \<Rightarrow>
                        (case str_prop opts ''filename'' of
                           None \<Rightarrow> Inl type_error
                         | Some f \<Rightarrow> (case read_file h f of None \<Rightarrow> Inl (fetch_error f) | Some t \<Rightarrow> Inr t))) of
                Inl e \<Rightarrow> (Inl e, st)
              | Inr t \<Rightarrow>
                  (case Template_compile n h (Template_options opts) t
                          (st\<lparr> dependencies := [], pathStack := [str_prop opts ''filename''] \<rparr>) of
                     (Inl e, st1) \<Rightarrow> (Inl e, st1)
                   | (Inr fn, st1) \<Rightarrow>
                       (Inr fn,
                        if truthy opts \<and> truthy (get_prop opts ''cache'')
                        then st1\<lparr> cache := (cache st1)(cache_key (str_prop opts ''filename'') \<mapsto> fn) \<rparr>
                        else st1))))"

section \<open>exports.render\<close>

text \<open>
  \<^verbatim>\<open>exports.render(template, d, o)\<close>: \<open>args\<close> are the arguments after the template, so
  \<^verbatim>\<open>arguments.length\<close> is \<open>1 + length args\<close>. \<open>run\<close> stands for the call of the compiled
  function on the data.
\<close>

definition render_data :: "jsval list \<Rightarrow> jsval" where
  "render_data args = (case args of d # rest \<Rightarrow> if truthy d then d else JObj [] | [] \<Rightarrow> JObj [])"

definition render_options :: "jsval list \<Rightarrow> jsval" where
  "render_options args =
     (let opts = (case args of d # o1 # rest \<Rightarrow> if truthy o1 then o1 else JObj [] | _ \<Rightarrow> JObj [])
      in if 1 + length args = 2 then cpOptsInData (render_data args) opts else opts)"

definition render ::
  "nat \<Rightarrow> host \<Rightarrow> (compiled \<Rightarrow> jsval \<Rightarrow> jsval effect) \<Rightarrow> string \<Rightarrow> jsval list \<Rightarrow> jsval effect" where
  "render n h run template args st =
     (case exports_compile n h (Some template) (render_options args) st of
        (Inl e, st1) \<Rightarrow> (Inl e, st1)
      | (Inr fn, st1) \<Rightarrow> run fn (render_data args) st1)"

section \<open>Running an assembled program that is static\<close>

text \<open>
  The engine hands the assembled text to the host (\<^verbatim>\<open>new Function\<close>) and calls the result.
  For the programs whose accumulator is initialised with one string literal and never
  appended to, the result is fixed by a few rules of the host language, written out here
  as a reader of the program text. Every other text reads as \<open>None\<close>: this model of the host
  says nothing about it.

  \<open>after_prefix p s\<close> is the text of \<open>s\<close> behind its prefix \<open>p\<close>.
\<close>

definition after_prefix :: "string \<Rightarrow> string \<Rightarrow> string option" where
  "after_prefix p s = (if starts_with p s then Some (drop (length p) s) else None)"

text \<open>
  A double-quoted string literal whose opening quote has been read: the text behind its
  closing quote. A line terminator breaks the literal. Of the escapes, the ones
  \<^verbatim>\<open>JSON.stringify\<close> writes are read (a backslash before a quote, a backslash or one of
  \<^verbatim>\<open>b f n r t\<close>, and \<^verbatim>\<open>\u\<close> with four hexadecimal digits).
\<close>

definition is_hex :: "char \<Rightarrow> bool" where
  "is_hex c = (c \<in> set ''0123456789abcdefABCDEF'')"

fun dq_rest :: "string \<Rightarrow> string option" where
  "dq_rest [] = None"
| "dq_rest [c] = (if c = dquote then Some [] else None)"
| "dq_rest (c # d # ds) =
     (if c = dquote then Some (d # ds)
      else if c = nl \<or> c = cr then None
      else if c = bslash
        then (if d = dquote \<or> d = bslash \<or> d \<in> set ''bfnrt'' then dq_rest ds
              else if d = CHR ''u'' \<and> 4 \<le> length ds \<and> list_all is_hex (take 4 ds)
                then dq_rest (drop 4 ds)
              else None)
      else dq_rest (d # ds))"

text \<open>
  A single-quoted string literal whose opening quote has been read: its value and the text
  behind its closing quote. The generator writes a backslash before a backslash and before
  a quote, and the escapes \<^verbatim>\<open>\n\<close> and \<^verbatim>\<open>\r\<close>; other escapes are not read.
\<close>

fun sq_literal :: "string \<Rightarrow> (string \<times> string) option" where
  "sq_literal [] = None"
| "sq_literal [c] = (if c = squote then Some ([], []) else None)"
| "sq_literal (c # d # ds) =
     (if c = squote then Some ([], d # ds)
      else if c = nl \<or> c = cr then None
      else if c = bslash
        then (if d = bslash \<or> d = squote then map_option (apfst ((#) d)) (sq_literal ds)
              else if d = CHR ''n'' then map_option (apfst ((#) nl)) (sq_literal ds)
              else if d = CHR ''r'' then map_option (apfst ((#) cr)) (sq_literal ds)
              else None)
      else map_option (apfst ((#) c)) (sq_literal (d # ds)))"

text \<open>
  The program is (lines 469 to 479 and 603 of the source, for the default locals name)
  \<^verbatim>\<open>var __filename = F; [var __line = 1, __lines = L; try {] [with(locals || {}) {]\<close>
  \<^verbatim>\<open>var __output = '<body>' [}] [; return __output; } catch (e) { rethrow(...) }]\<close>
  with \<open>F\<close> the name \<^verbatim>\<open>undefined\<close> or a string literal and \<open>L\<close> a string literal; the parts in
  brackets come with \<^verbatim>\<open>compileDebug\<close> and with \<^verbatim>\<open>_with\<close>. Nothing in it throws, so the values
  of \<open>F\<close> and \<open>L\<close> are never read.

  The \<^verbatim>\<open>return\<close> is part of the text only under \<^verbatim>\<open>compileDebug\<close>: without it the call returns
  \<^verbatim>\<open>undefined\<close>. The declaration \<^verbatim>\<open>var __output\<close> is hoisted to the function, but its
  initialiser is an assignment to the name \<^verbatim>\<open>__output\<close> resolved inside the \<^verbatim>\<open>with\<close> block:
  when the data object has a property of that name the assignment goes to the property, and
  the variable that the \<^verbatim>\<open>return\<close> outside the block reads is still \<^verbatim>\<open>undefined\<close>.
\<close>

definition static_result :: "bool \<Rightarrow> bool \<Rightarrow> jsval \<Rightarrow> string \<Rightarrow> jsval" where
  "static_result dbg w data v =
     (if \<not> dbg then JUndefined
      else if w \<and> has_property data ''__output'' then JUndefined
      else JStr v)"

definition value_rest :: "string \<Rightarrow> string option" where
  "value_rest s =
     (case after_prefix ''undefined'' s of
        Some r \<Rightarrow> Some r
      | None \<Rightarrow> (case s of [] \<Rightarrow> None | c # cs \<Rightarrow> if c = dquote then dq_rest cs else None))"

definition debug_header :: "string \<Rightarrow> (bool \<times> string) option" where
  "debug_header s =
     (case after_prefix ''var __line = 1, __lines = '' s of
        None \<Rightarrow> Some (False, s)
      | Some r \<Rightarrow>
          (case r of
             [] \<Rightarrow> None
           | c # cs \<Rightarrow>
               (if c = dquote
                then (case dq_rest cs of
                        None \<Rightarrow> None
                      | Some r1 \<Rightarrow> map_option (Pair True) (after_prefix ('';'' @ [nl] @ ''try { '' @ [nl]) r1))
                else None)))"

definition with_header :: "string \<Rightarrow> bool \<times> string" where
  "with_header s =
     (case after_prefix (''with(locals || {}) {'' @ [nl]) s of
        Some r \<Rightarrow> (True, r)
      | None \<Rightarrow> (False, s))"

definition static_epilogue :: "bool \<Rightarrow> bool \<Rightarrow> string" where
  "static_epilogue dbg w =
     (if w then ''}'' @ [nl] else [])
     @ (if dbg
        then ''; return __output;'' @ [nl] @ ''} catch (e) {'' @ [nl]
             @ ''rethrow(e, __lines, __filename, __line);'' @ [nl] @ ''}''
        else [])"

text \<open>
  The call of \<^verbatim>\<open>new Function(params, source)\<close> with \<open>data\<close> as its first argument, for a
  static program.
\<close>

definition run_static :: "string \<Rightarrow> string \<Rightarrow> jsval \<Rightarrow> jsval option" where
  "run_static params source data =
     (if params = ''locals, escape, include, rethrow''
      then (case after_prefix ''var __filename = '' source of
              None \<Rightarrow> None
            | Some r1 \<Rightarrow>
          (case value_rest r1 of
              None \<Rightarrow> None
            | Some r2 \<Rightarrow>
          (case after_prefix '';'' r2 of
              None \<Rightarrow> None
            | Some r3 \<Rightarrow>
          (case debug_header r3 of
              None \<Rightarrow> None
            | Some dr \<Rightarrow>
          (case after_prefix (''var __output = '' @ [squote]) (snd (with_header (snd dr))) of
              None \<Rightarrow> None
            | Some r6 \<Rightarrow>
          (case sq_literal r6 of
              None \<Rightarrow> None
            | Some vr \<Rightarrow>
                (if snd vr = static_epilogue (fst dr) (fst (with_header (snd dr)))
                 then Some (static_result (fst dr) (fst (with_header (snd dr))) data (fst vr))
                 else None)))))))
      else None)"

text \<open>
  \<^verbatim>\<open>compile(template, opts)(data)\<close> on a \<^verbatim>\<open>Template\<close> object, outside the distribution mode and
  without precompiled includes, for a template whose program is static: the text is what
  \<^verbatim>\<open>Template.prototype.compile\<close> assembles around the result of \<^verbatim>\<open>generateSource\<close>, and the
  returned function calls it with \<^verbatim>\<open>data || {}\<close>.
\<close>

definition render_static ::
  "nat \<Rightarrow> host \<Rightarrow> options \<Rightarrow> string \<Rightarrow> jsval \<Rightarrow> state \<Rightarrow> ((js_error + jsval) \<times> state) option" where
  "render_static n h opts template data st =
     (case generateSource (Suc n) h opts (Some template) (opt_filename opts) st of
        (Inl e, st1) \<Rightarrow> Some (Inl e, st1)
      | (Inr src, st1) \<Rightarrow>
          (if \<not> opt_client opts \<and> opt_precompile opts = []
           then map_option (\<lambda>v. (Inr v, st1))
                  (run_static (opt_localsName opts @ '', escape, include, rethrow'')
                     (globalPrepened (parseOptions h opts) @ src @ globalAppended (parseOptions h opts))
                     (if truthy data then data else JObj []))
           else None))"

section \<open>What an include leaves behind\<close>

text \<open>
  Two relations between the state before a call and its result, used to follow the path
  stack and the compile counter through the recursion. \<open>frame\<close>, for \<^verbatim>\<open>generateSource\<close> and
  what it calls: the counter is unchanged and, outside the distribution mode, the stack has
  only grown, and is unchanged when the call returned. \<open>inc_frame\<close>, for \<^verbatim>\<open>includeFile\<close>:
  outside the distribution mode either the path did not resolve and nothing changed, or the
  resolved filename was pushed, and is the top of the stack when the call returned.
\<close>

definition frame :: "options \<Rightarrow> state \<Rightarrow> (js_error + 'a) \<times> state \<Rightarrow> bool" where
  "frame opts st r =
     (compilations (snd r) = compilations st
      \<and> (\<not> opt_client opts \<longrightarrow>
           (\<exists>extra. pathStack (snd r) = pathStack st @ extra \<and> (\<not> isl (fst r) \<longrightarrow> extra = []))))"

definition inc_frame :: "host \<Rightarrow> options \<Rightarrow> string \<Rightarrow> state \<Rightarrow> (js_error + 'a) \<times> state \<Rightarrow> bool" where
  "inc_frame h opts p st r =
     (compilations (snd r) = compilations st
      \<and> (\<not> opt_client opts \<longrightarrow>
           (case include_target h opts p st of
              Inl e \<Rightarrow> r = (Inl e, st)
            | Inr fn \<Rightarrow> (\<exists>extra. pathStack (snd r) = pathStack st @ Some fn # extra
                                 \<and> (\<not> isl (fst r) \<longrightarrow> extra = [])))))"

section \<open>Concrete inputs\<close>

text \<open>The state of a fresh \<^verbatim>\<open>Template\<close> object for a filename, with an empty cache.\<close>

definition new_state :: "string option \<Rightarrow> state" where
  "new_state filename =
     \<lparr> cache = (\<lambda>k. None), dependencies = [], pathStack = [filename], compilations = 0 \<rparr>"

text \<open>A host with the working directory \<^verbatim>\<open>/cwd\<close> and one file, \<^verbatim>\<open>/cwd/views/p.ejs\<close>.\<close>

definition one_file :: "string \<Rightarrow> string option" where
  "one_file f = (if f = ''/cwd/views/p.ejs'' then Some ''P<%= x %>'' else None)"

definition demo_host :: host where
  "demo_host = posix_host ''/cwd'' one_file"

definition ten_lines :: string where
  "ten_lines = join [nl] [''a'', ''b'', ''c'', ''d'', ''e'', ''f'', ''g'', ''h'', ''i'', ''j'']"

text \<open>Options with the cache on, the first compile under them, and options with a filename.\<close>

definition cached_opts :: jsval where
  "cached_opts = JObj [(''filename'', JStr ''views/a.ejs''), (''cache'', JBool True)]"

definition first_compile :: "(js_error + compiled) \<times> state" where
  "first_compile = exports_compile 0 demo_host (Some ''hi'') cached_opts (new_state None)"

text \<open>The same with the empty string as filename.\<close>

definition unnamed_opts :: jsval where
  "unnamed_opts = JObj [(''filename'', JStr []), (''cache'', JBool True)]"

definition unnamed_first :: "(js_error + compiled) \<times> state" where
  "unnamed_first = exports_compile 0 demo_host (Some ''hi'') unnamed_opts (new_state None)"

definition demo_opts :: options where
  "demo_opts = default_options\<lparr> opt_filename := Some ''views/a.ejs'' \<rparr>"

text \<open>A data object with two option names among its fields.\<close>

definition optiony_data :: jsval where
  "optiony_data = JObj [(''name'', JStr ''x''), (''delimiter'', JStr ''?''), (''rmWhitespace'', JBool True)]"

section \<open>Properties\<close>

lemmas eval_defs =
  template_body_def default_options_def Template_options_def escape_quotes_def escape_nl_def
  escape_cr_def esc_n_def esc_r_def first_match_def tag_matches_def greedy_class_def
  lazy_class_def opt_class_def lit_def starts_with_def in_bracket_def is_space_def is_dot_def
  tag_callback_def d_escaped_def d_raw_def d_whitespaceSlurpingStart_def
  d_whitespaceSlurpingEnd_def d_comment_def d_scriptlet_def d_rmNewLine_def slurp_before_def
  slurp_after_def resolve_includes_def include_directive_def include_call_def
  undefined_or_null_def emit_def unescape_content_def strip_semicolon_def show_nat.simps
  digit_char_def upt_rec Let_def

lemmas static_defs =
  run_static_def after_prefix_def value_rest_def debug_header_def with_header_def
  static_epilogue_def static_result_def is_hex_def prologue_def parseOptions_def
  replace_first_def json_string_opt_def json_string_def json_char_def

subsection \<open>C1: the context window of the error reporter\<close>

lemma show_nat_digit: "n < 10 \<Longrightarrow> show_nat n = [digit_char n]"
  by (simp add: show_nat.simps)

text \<open>
  C1. The reporter is claimed to show up to 3 lines before and 3 lines after the failing line,
  so lines 2 to 8 for line 5 of a 10-line template. The code slices the 0-based line array
  from \<open>lineno - 3\<close> to \<open>lineno + 3\<close> while \<open>lineno\<close> is 1-based: the window of line 5 holds
  the six lines 3 to 8, two before the marked line and three after it. The error's path is
  the filename and the error is thrown (the result is always \<open>Inl\<close>).
\<close>

theorem rethrow_line5_window:
  "rethrow \<lparr>err_kind = EvalError, err_message = ''boom'', err_path = None\<rparr>
      ten_lines (Some ''t.ejs'') 5
   = (Inl \<lparr>err_kind = EvalError,
           err_message = ''t.ejs:5'' @ [nl]
             @ ''    3| c'' @ [nl] @ ''    4| d'' @ [nl] @ '' >> 5| e'' @ [nl]
             @ ''    6| f'' @ [nl] @ ''    7| g'' @ [nl] @ ''    8| h'' @ [nl, nl] @ ''boom'',
           err_path = Some ''t.ejs''\<rparr> :: js_error + unit)"
  by (simp add: rethrow_def rethrow_context_def ten_lines_def window_start_def window_end_def
      slice_def context_line_def show_nat_digit digit_char_def upt_rec)

subsection \<open>C3: the test for the blank bindings\<close>

text \<open>
  C3. A fragment is claimed to become the empty-string literal if and only if its trimmed
  content is exactly \<^verbatim>\<open>undefined\<close> or \<^verbatim>\<open>null\<close>. The test of the code is the pattern
  \<^verbatim>\<open>^\s*(undefined)|(null)\s*\<close>, whose alternation splits it in two: content that starts with
  \<^verbatim>\<open>undefined\<close>, or content that holds \<^verbatim>\<open>null\<close> anywhere. The output tag of the identifier
  \<^verbatim>\<open>nullable\<close> is generated as \<^verbatim>\<open>escape('', __line = 1)\<close>: the identifier is gone.
\<close>

theorem nullable_fragment_suppressed:
  "template_body h incFile default_options ''<%= nullable %>'' st
   = (Inr ([squote] @ '' + escape('' @ [squote, squote] @ '', __line = 1) + '' @ [squote]), st)"
  by (simp add: eval_defs)

subsection \<open>C4: comment tags\<close>

text \<open>
  C4. A template of literal text around one comment tag is claimed to render as exactly the
  surrounding text. The callback returns the empty string for the whole match of a comment
  tag, and the match takes in the run of whitespace, parentheses, backslashes and letters
  \<open>r\<close>, \<open>n\<close> on either side of the tag: the template \<^verbatim>\<open>a <%# x %> b\<close> renders as \<^verbatim>\<open>ab\<close>, without
  the two spaces of the surrounding text.
\<close>

theorem comment_tag_drops_adjacent_text:
  "render_static n h default_options ''a <%# x %> b'' JUndefined st = Some (Inr (JStr ''ab''), st)"
  by (simp add: render_static_def generateSource_with_def static_defs strings_of_def eval_defs)

subsection \<open>C5: the whitespace-slurp directives\<close>

text \<open>
  C5. The closer \<^verbatim>\<open>-%>\<close> is claimed to strip exactly one line break that immediately follows
  the tag, and nothing else. The code removes the first line break of the captured text
  after the tag wherever it stands (the pattern has no anchor): in
  \<^verbatim>\<open><%= 1 -%>\<close>, a space, a line feed, \<^verbatim>\<open>b\<close> the line feed behind the space is removed and the
  space stays.
\<close>

theorem newline_slurp_not_anchored:
  "template_body h incFile default_options (''<%= 1 -%> '' @ [nl] @ ''b'') st
   = (Inr ([squote] @ '' + escape(1, __line = 1) + '' @ [squote] @ '' b''), st)"
  by (simp add: eval_defs)

subsection \<open>C6: a relative include without an enclosing filename\<close>

text \<open>
  C6. For every include path that does not begin with a slash, resolving it when no enclosing
  filename is known (\<^verbatim>\<open>undefined\<close> or empty) raises the configuration error. It is raised
  before anything is pushed, fetched or cached: \<^verbatim>\<open>includeFile\<close>, the include directive and
  the runtime include all end with that error and the state they started from; nothing
  catches it on the way and nothing runs again.
\<close>

theorem relative_include_needs_filename:
  assumes "\<not> starts_with ''/'' p" and "falsy_string filename"
  shows "getIncludePath h p filename root = Inl relative_include_error
       \<and> err_kind relative_include_error = ConfigError
       \<and> (\<not> opt_usePages opts \<and> top_of (pathStack st) = filename \<longrightarrow>
            includeFile n h opts p st = (Inl relative_include_error, st)
          \<and> includeSource n h opts p st = (Inl relative_include_error, st)
          \<and> runtime_include n h opts run p st = (Inl relative_include_error, st))"
  using assms
  by (simp add: getIncludePath_def relative_include_error_def includeFile_def includeFile_with_def
      include_target_def includeSource_def includeSource_of_def runtime_include_def)

theorem relative_include_needs_filename_witness:
  "\<not> starts_with ''/'' ''partial'' \<and> falsy_string None
   \<and> getIncludePath demo_host ''partial'' None None = Inl relative_include_error
   \<and> includeSource 3 demo_host default_options ''partial'' (new_state None)
       = (Inl relative_include_error, new_state None)"
  using relative_include_needs_filename [of "''partial''" None demo_host None default_options
      "new_state None" 3 undefined]
  by (simp add: starts_with_def falsy_string_def top_of_def new_state_def default_options_def
      Template_options_def)

subsection \<open>C7: include path resolution\<close>

text \<open>
  C7. An include path that begins with a slash is resolved, without its leading slashes,
  against the configured root, or against \<^verbatim>\<open>/\<close> when no root is configured; a relative path is
  resolved against the directory of the enclosing template's filename; and the default
  extension \<^verbatim>\<open>.ejs\<close> is appended when the include path has no extension. The path functions
  are the host's.
\<close>

theorem include_path_resolution:
  "(starts_with ''/'' p \<longrightarrow>
      getIncludePath h p filename root
      = Inr (path_resolve h (if falsy_string root then ''/'' else the root) (dropWhile is_slash p)
             @ (if path_extname h (dropWhile is_slash p) = [] then ''.ejs'' else [])))
   \<and> (\<not> starts_with ''/'' p \<and> \<not> falsy_string filename \<longrightarrow>
      getIncludePath h p filename root
      = Inr (path_resolve h (path_dirname h (the filename)) p
             @ (if path_extname h p = [] then ''.ejs'' else [])))"
  by (simp add: getIncludePath_def resolveInclude_def)

lemmas posix_defs =
  demo_host_def posix_host_def posix_resolve_def posix_dirname_def posix_extname_def
  norm_step_def is_slash_def starts_with_def falsy_string_def

theorem include_path_resolution_witness:
  "getIncludePath demo_host ''partial'' (Some ''views/a.ejs'') None = Inr ''/cwd/views/partial.ejs''
   \<and> getIncludePath demo_host ''/shared/x'' (Some ''views/a.ejs'') (Some ''/srv/www'')
       = Inr ''/srv/www/shared/x.ejs''
   \<and> getIncludePath demo_host ''/shared/x'' None None = Inr ''/shared/x.ejs''
   \<and> getIncludePath demo_host ''../lib/menu.html'' (Some ''/app/views/a.ejs'') None
       = Inr ''/app/lib/menu.html''"
  using include_path_resolution [of "''partial''" demo_host "Some ''views/a.ejs''" None]
    include_path_resolution [of "''/shared/x''" demo_host "Some ''views/a.ejs''" "Some ''/srv/www''"]
    include_path_resolution [of "''/shared/x''" demo_host None None]
    include_path_resolution [of "''../lib/menu.html''" demo_host "Some ''/app/views/a.ejs''" None]
  by (simp add: posix_defs)

subsection \<open>The path stack and the compile counter through the includes\<close>

lemma frame_trans:
  assumes "frame opts st (Inr x, st1)" "frame opts st1 (r, st2)"
  shows "frame opts st (r, st2)"
  using assms by (auto simp: frame_def)

lemma load_include_frame:
  assumes gen: "\<And>t f s. frame opts s (gen t f s)"
  shows "frame opts st1 (load_include h gen opts p fn st1)"
proof (cases "fetch_template h opts p fn")
  case (Inl e)
  then show ?thesis by (simp add: load_include_def frame_def)
next
  case (Inr t)
  obtain r s2 where g: "gen t (Some fn) st1 = (r, s2)" by (cases "gen t (Some fn) st1")
  from gen[of st1 t "Some fn"] g have fr: "frame opts st1 (r, s2)" by simp
  show ?thesis
    using Inr g fr
    by (cases r; cases "sourceToFunc h opts (projr r)")
       (auto simp: load_include_def frame_def)
qed

lemma includeFile_with_frame:
  assumes gen: "\<And>t f s. frame opts s (gen t f s)"
  shows "inc_frame h opts p st (includeFile_with h gen opts p st)"
proof (cases "include_target h opts p st")
  case (Inl e)
  then show ?thesis by (simp add: includeFile_with_def inc_frame_def)
next
  case (Inr fn)
  show ?thesis
  proof (cases "clientFilename opts p (top_of (pathStack st))")
    case (Inl e)
    then have "opt_client opts" by (auto simp: clientFilename_def split: if_splits)
    with Inl Inr show ?thesis by (simp add: includeFile_with_def inc_frame_def)
  next
    case ck: (Inr ck)
    define st1 where "st1 = st\<lparr> pathStack := pathStack st @ [Some fn] \<rparr>"
    obtain r s2 where l: "load_include h gen opts p fn st1 = (r, s2)"
      by (cases "load_include h gen opts p fn st1")
    have "frame opts st1 (load_include h gen opts p fn st1)"
      by (rule load_include_frame) (rule gen)
    with l have fr: "frame opts st1 (r, s2)" by simp
    show ?thesis
      using Inr ck l fr
      by (auto simp: includeFile_with_def inc_frame_def frame_def Let_def st1_def
          split: sum.splits prod.splits option.splits)
  qed
qed

lemma includeSource_of_frame:
  assumes inc: "\<And>p s. inc_frame h opts p s (inc p s)"
  shows "frame opts st (includeSource_of h inc p st)"
proof -
  obtain r s1 where i: "inc p st = (r, s1)" by (cases "inc p st")
  from inc[of p st] i have fr: "inc_frame h opts p st (r, s1)" by simp
  show ?thesis
    using i fr
    by (cases r; cases "include_target h opts p st")
       (auto simp: includeSource_of_def inc_frame_def frame_def Let_def butlast_append)
qed

lemma resolve_includes_frame:
  assumes inc: "\<And>p s. inc_frame h opts p s (inc p s)"
  shows "frame opts st (resolve_includes h inc opts content st)"
proof (cases "include_directive content")
  case (Some name)
  obtain r s1 where i: "includeSource_of h inc name st = (r, s1)"
    by (cases "includeSource_of h inc name st")
  have "frame opts st (includeSource_of h inc name st)"
    by (rule includeSource_of_frame) (rule inc)
  with i have "frame opts st (r, s1)" by simp
  with Some i show ?thesis
    by (cases r) (auto simp: resolve_includes_def frame_def)
next
  case None
  show ?thesis
  proof (cases "opt_client opts \<and> include_call content \<noteq> None")
    case True
    then obtain name where n: "include_call content = Some name" by auto
    obtain r s1 where i: "inc name st = (r, s1)" by (cases "inc name st")
    from inc[of name st] i have "inc_frame h opts name st (r, s1)" by simp
    with None True n i show ?thesis
      by (cases r) (auto simp: resolve_includes_def frame_def inc_frame_def)
  next
    case False
    with None show ?thesis
      by (auto simp: resolve_includes_def frame_def split: option.splits)
  qed
qed

lemma tag_callback_frame:
  assumes inc: "\<And>p s. inc_frame h opts p s (inc p s)"
  shows "frame opts st (tag_callback h inc opts line b p ct sf a st)"
proof -
  obtain r s1 where i: "resolve_includes h inc opts (unescape_content ct) st = (r, s1)"
    by (cases "resolve_includes h inc opts (unescape_content ct) st")
  have "frame opts st (resolve_includes h inc opts (unescape_content ct) st)"
    by (rule resolve_includes_frame) (rule inc)
  with i have "frame opts st (r, s1)" by simp
  with i show ?thesis
    by (cases r) (auto simp: tag_callback_def frame_def Let_def)
qed

lemma frame_map:
  "frame opts st (case x of (Inl e, s) \<Rightarrow> (Inl e, s) | (Inr out, s) \<Rightarrow> (Inr (f out), s))
   = frame opts st x"
  by (auto simp: frame_def split: prod.splits sum.splits)

lemma replace_tags_frame:
  "(\<And>p s. inc_frame h opts p s (inc p s)) \<Longrightarrow> frame opts st (replace_tags h inc opts line s st)"
proof (induction h inc opts line s st rule: replace_tags.induct)
  case (1 h incFile opts line st)
  then show ?case by (simp add: frame_def)
next
  case (2 h incFile opts line c cs st)
  note inc = "2.prems"
  show ?case
  proof (cases "first_match (opt_compileDebug opts) (opt_delimiter opts) (c # cs)")
    case None
    with "2.IH"(1)[OF None inc] show ?thesis by (simp add: frame_map)
  next
    case (Some m)
    obtain x n where m: "m = (x, n)" by (cases m)
    show ?thesis
    proof (cases x)
      case NewlineMatch
      with "2.IH"(3)[OF Some m[symmetric] NewlineMatch inc] Some m show ?thesis
        by (simp add: frame_map)
    next
      case (TagMatch b p ct sf a)
      obtain r s1 where t: "tag_callback h incFile opts line b p ct sf a st = (r, s1)"
        by (cases "tag_callback h incFile opts line b p ct sf a st")
      have "frame opts st (tag_callback h incFile opts line b p ct sf a st)"
        by (rule tag_callback_frame) (rule inc)
      with t have fr: "frame opts st (r, s1)" by simp
      show ?thesis
      proof (cases r)
        case (Inl e)
        with Some m TagMatch t fr show ?thesis by (simp add: frame_def)
      next
        case (Inr ol)
        have "frame opts s1 (replace_tags h incFile opts (snd ol) (drop (n - 1) cs) s1)"
          by (rule "2.IH"(2)[OF Some m[symmetric] TagMatch t[symmetric] Inr inc])
        moreover obtain r2 s2 where
          r2: "replace_tags h incFile opts (snd ol) (drop (n - 1) cs) s1 = (r2, s2)"
          by (cases "replace_tags h incFile opts (snd ol) (drop (n - 1) cs) s1")
        ultimately have "frame opts st (r2, s2)"
          using fr Inr by (simp add: frame_trans)
        with Some m TagMatch t Inr r2 show ?thesis
          by (cases r2) (auto simp: frame_def)
      qed
    qed
  qed
qed

lemma template_body_frame:
  assumes inc: "\<And>p s. inc_frame h opts p s (inc p s)"
  shows "frame opts st (template_body h inc opts t st)"
proof -
  have "frame opts st (replace_tags h inc opts 1 s st)" for s
    by (rule replace_tags_frame) (rule inc)
  then show ?thesis
    unfolding template_body_def Let_def by (simp add: frame_map)
qed

lemma generateSource_with_frame:
  assumes inc: "\<And>p s. inc_frame h opts p s (inc p s)"
  shows "frame opts st (generateSource_with h inc opts t f st)"
proof (cases t)
  case None
  then show ?thesis by (simp add: generateSource_with_def frame_def)
next
  case (Some x)
  have "frame opts st (template_body h inc opts x st)"
    by (rule template_body_frame) (rule inc)
  with Some show ?thesis
    unfolding generateSource_with_def by (simp add: frame_map)
qed

lemma generateSource_frame: "frame opts st (generateSource n h opts t f st)"
proof (induction n arbitrary: t f st)
  case 0
  then show ?case by (simp add: frame_def)
next
  case (Suc n)
  show ?case
    unfolding generateSource.simps
    by (rule generateSource_with_frame, rule includeFile_with_frame, rule Suc.IH)
qed

lemma includeFile_frame: "inc_frame h opts p st (includeFile n h opts p st)"
  unfolding includeFile_def by (rule includeFile_with_frame) (rule generateSource_frame)

lemma includeSource_frame: "frame opts st (includeSource n h opts p st)"
  unfolding includeSource_def by (rule includeSource_of_frame) (rule includeFile_frame)

lemma precompile_all_compilations:
  "compilations (snd (precompile_all n h opts ps st)) = compilations st"
proof (induction ps arbitrary: st)
  case Nil
  then show ?case by simp
next
  case (Cons p ps)
  obtain r s1 where i: "includeFile n h opts p st = (r, s1)" by (cases "includeFile n h opts p st")
  from includeFile_frame[of h opts p st n] i have "compilations s1 = compilations st"
    by (simp add: inc_frame_def)
  with i Cons.IH[of s1] show ?case by (cases r) auto
qed

lemma Template_compile_compilations:
  "compilations (snd (Template_compile n h opts t st)) = Suc (compilations st)"
proof -
  define st0 where "st0 = st\<lparr> compilations := Suc (compilations st) \<rparr>"
  obtain r s1 where g: "generateSource (Suc n) h opts (Some t) (opt_filename opts) st0 = (r, s1)"
    by (cases "generateSource (Suc n) h opts (Some t) (opt_filename opts) st0")
  from generateSource_frame[of opts st0 "Suc n" h "Some t" "opt_filename opts"] g
  have c1: "compilations s1 = Suc (compilations st)" by (simp add: frame_def st0_def)
  obtain r2 s2 where p: "precompile_all n h opts (opt_precompile opts) s1 = (r2, s2)"
    by (cases "precompile_all n h opts (opt_precompile opts) s1")
  from precompile_all_compilations[of n h opts "opt_precompile opts" s1] p c1
  have c2: "compilations s2 = Suc (compilations st)" by simp
  show ?thesis
    using g p c1 c2 unfolding Template_compile_def Let_def st0_def[symmetric]
    by (cases r; cases r2) (auto simp del: generateSource.simps split: sum.splits)
qed

lemma map_of_filter_neq: "k \<noteq> x \<Longrightarrow> map_of (filter (\<lambda>kv. fst kv \<noteq> x) kvs) k = map_of kvs k"
  by (induction kvs) auto

lemma map_of_set_property:
  "map_of (set_property k v kvs) k' = (if k' = k then Some v else map_of kvs k')"
proof (cases "map_of kvs k")
  case None
  then show ?thesis by (auto simp: set_property_def map_add_def split: option.splits)
next
  case (Some w)
  have "map_of (map (\<lambda>kv. if fst kv = k then (k, v) else kv) kvs) k'
        = (if k' = k then (case map_of kvs k of None \<Rightarrow> None | Some u \<Rightarrow> Some v) else map_of kvs k')"
    by (induction kvs) (auto split: option.splits)
  with Some show ?thesis by (simp add: set_property_def)
qed

lemma get_prop_set_prop:
  "get_prop (set_prop k v (JObj kvs)) k' = (if k' = k then v else get_prop (JObj kvs) k')"
  by (simp add: map_of_set_property)

lemma get_prop_scope_compat:
  assumes "k \<noteq> ''scope''" "k \<noteq> ''context''"
  shows "get_prop (scope_compat opts) k = get_prop opts k"
proof (cases opts)
  case (JObj kvs)
  then show ?thesis using assms
    by (auto simp: scope_compat_def map_of_set_property map_of_filter_neq split: option.splits)
qed (simp_all add: scope_compat_def)

lemma truthy_scope_compat: "truthy (scope_compat opts) = truthy opts"
  by (cases opts) (auto simp: scope_compat_def)


subsection \<open>C8: the second compile is served from the cache\<close>

text \<open>
  C8, as claimed: for every filename, the second compile with \<^verbatim>\<open>cache\<close> set is served from the
  cache. The counterexample: the filename is the empty string. \<^verbatim>\<open>exports.compile\<close> reads the
  cache only when \<^verbatim>\<open>opts.filename\<close> is truthy, and stores under it whenever \<^verbatim>\<open>opts.cache\<close> is:
  the first compile stores its function under the empty string, the second does not look
  for it, and \<^verbatim>\<open>Template.prototype.compile\<close> has run twice.
\<close>

theorem empty_filename_compiles_twice:
  "str_prop unnamed_opts ''filename'' = Some []
   \<and> truthy (get_prop unnamed_opts ''cache'') \<and> \<not> truthy (get_prop unnamed_opts ''usePages'')
   \<and> \<not> isl (fst unnamed_first)
   \<and> map_option Inr (cache (snd unnamed_first) []) = Some (fst unnamed_first)
   \<and> compilations (snd unnamed_first) = 1
   \<and> \<not> isl (fst (exports_compile 0 demo_host (Some ''hi'') unnamed_opts (snd unnamed_first)))
   \<and> compilations (snd (exports_compile 0 demo_host (Some ''hi'') unnamed_opts (snd unnamed_first))) = 2"
  by code_simp

text \<open>
  C8, as amended. For every non-empty filename: when a compile with \<^verbatim>\<open>cache\<close> set, that
  filename and no \<^verbatim>\<open>usePages\<close> has returned a function, a second compile with the same options
  returns that function from the cache and changes nothing, whatever template text it is
  given: \<^verbatim>\<open>Template.prototype.compile\<close> does not run again. The first compile ran it at most
  once, and exactly once when the cache had no entry for the filename.
\<close>

theorem second_compile_hits_cache:
  assumes fn: "str_prop opts ''filename'' = Some f" "f \<noteq> []"
    and c: "truthy (get_prop opts ''cache'')" and u: "\<not> truthy (get_prop opts ''usePages'')"
    and first: "exports_compile n h t1 opts st = (Inr fn, st1)"
  shows "exports_compile n h t2 opts st1 = (Inr fn, st1)
       \<and> cache st1 f = Some fn
       \<and> compilations st1 \<le> Suc (compilations st)
       \<and> (cache st f = None \<longrightarrow> compilations st1 = Suc (compilations st))"
proof -
  have obj: "truthy opts" using fn by (cases opts) auto
  have props: "str_prop (scope_compat opts) ''filename'' = Some f"
    "truthy (get_prop (scope_compat opts) ''cache'')"
    "\<not> truthy (get_prop (scope_compat opts) ''usePages'')"
    using fn c u by (simp_all add: get_prop_scope_compat)
  have cons: "cache_consulted (scope_compat opts)"
    using props fn obj by (simp add: cache_consulted_def truthy_scope_compat falsy_string_def)
  have key: "cache_key (str_prop (scope_compat opts) ''filename'') = f"
    using props by (simp add: cache_key_def)
  show ?thesis
  proof (cases "cache st f")
    case (Some g)
    with first cons key have "fn = g" "st1 = st"
      by (auto simp: exports_compile_def Let_def)
    with Some cons key show ?thesis by (simp add: exports_compile_def Let_def)
  next
    case None
    define S where "S = st\<lparr> dependencies := [], pathStack := [str_prop (scope_compat opts) ''filename''] \<rparr>"
    obtain t s' where
      tc: "Template_compile n h (Template_options (scope_compat opts)) t S = (Inr fn, s')"
      and st1: "st1 = s'\<lparr> cache := (cache s')(f \<mapsto> fn) \<rparr>"
      using first None cons key props obj unfolding exports_compile_def Let_def S_def
      by (auto simp: truthy_scope_compat split: option.splits sum.splits prod.splits)
    from Template_compile_compilations[of n h "Template_options (scope_compat opts)" t S] tc
    have "compilations s' = Suc (compilations st)" by (simp add: S_def)
    with st1 None cons key show ?thesis by (simp add: exports_compile_def Let_def)
  qed
qed

lemma first_compile_ok: "\<not> isl (fst first_compile)"
  by code_simp

theorem second_compile_hits_cache_witness:
  "str_prop cached_opts ''filename'' = Some ''views/a.ejs''
   \<and> truthy (get_prop cached_opts ''cache'') \<and> \<not> truthy (get_prop cached_opts ''usePages'')
   \<and> \<not> isl (fst first_compile)
   \<and> exports_compile 0 demo_host (Some ''another text'') cached_opts (snd first_compile) = first_compile
   \<and> compilations (snd first_compile) = Suc 0"
proof -
  have a: "str_prop cached_opts ''filename'' = Some ''views/a.ejs''" "''views/a.ejs'' \<noteq> []"
    "truthy (get_prop cached_opts ''cache'')" "\<not> truthy (get_prop cached_opts ''usePages'')"
    by (simp_all add: cached_opts_def)
  obtain fn where f: "exports_compile 0 demo_host (Some ''hi'') cached_opts (new_state None)
       = (Inr fn, snd first_compile)"
    using first_compile_ok unfolding first_compile_def
    by (cases "exports_compile 0 demo_host (Some ''hi'') cached_opts (new_state None)";
        cases "fst (exports_compile 0 demo_host (Some ''hi'') cached_opts (new_state None))") auto
  from second_compile_hits_cache[OF a f, where ?t2.0 = "Some ''another text''"]
  show ?thesis using a first_compile_ok f
    by (simp add: first_compile_def new_state_def)
qed

subsection \<open>C2: the path stack around an include\<close>

text \<open>
  The include that returns, for comparison. Outside the distribution mode: an include
  directive that completes leaves the path stack as it found it; one that fails either
  failed to resolve its path, and nothing changed, or leaves the pushed filename on the
  stack. \<^verbatim>\<open>includeFile\<close> returns with the resolved filename pushed; the runtime include then
  runs the function and pops one entry when the run returns, which restores the stack when
  the run left it as it was. It pops nothing when \<^verbatim>\<open>includeFile\<close> or the run throws.
\<close>

lemma include_pops_only_on_success:
  assumes nc: "\<not> opt_client opts"
  shows "(\<forall>src st'. includeSource n h opts p st = (Inr src, st') \<longrightarrow> pathStack st' = pathStack st)
       \<and> (\<forall>e st'. includeSource n h opts p st = (Inl e, st') \<longrightarrow>
            (case include_target h opts p st of
               Inl e' \<Rightarrow> st' = st \<and> e = e'
             | Inr fn \<Rightarrow> (\<exists>extra. pathStack st' = pathStack st @ Some fn # extra)))
       \<and> (\<forall>e st'. includeFile n h opts p st = (Inl e, st') \<longrightarrow>
            runtime_include n h opts run p st = (Inl e, st')
            \<and> (case include_target h opts p st of
                  Inl e' \<Rightarrow> st' = st \<and> e = e'
                | Inr fn \<Rightarrow> (\<exists>extra. pathStack st' = pathStack st @ Some fn # extra)))
       \<and> (\<forall>f st1. includeFile n h opts p st = (Inr f, st1) \<longrightarrow>
            (\<exists>fn. include_target h opts p st = Inr fn \<and> pathStack st1 = pathStack st @ [Some fn])
            \<and> (\<forall>out st2. run f st1 = (Inr out, st2) \<longrightarrow>
                  runtime_include n h opts run p st
                  = (Inr out, st2\<lparr> pathStack := butlast (pathStack st2) \<rparr>)
                  \<and> (pathStack st2 = pathStack st1 \<longrightarrow> butlast (pathStack st2) = pathStack st))
            \<and> (\<forall>e st2. run f st1 = (Inl e, st2) \<longrightarrow>
                  runtime_include n h opts run p st = (Inl e, st2)))"
proof (intro conjI allI impI)
  fix src st'
  assume a: "includeSource n h opts p st = (Inr src, st')"
  from includeSource_frame[of opts st n h p] a nc show "pathStack st' = pathStack st"
    by (simp add: frame_def)
next
  fix e st'
  assume a: "includeSource n h opts p st = (Inl e, st')"
  then have b: "includeFile n h opts p st = (Inl e, st')"
    by (auto simp: includeSource_def includeSource_of_def Let_def split: prod.splits sum.splits)
  from includeFile_frame[of h opts p st n] b nc
  show "case include_target h opts p st of
          Inl e' \<Rightarrow> st' = st \<and> e = e'
        | Inr fn \<Rightarrow> (\<exists>extra. pathStack st' = pathStack st @ Some fn # extra)"
    by (auto simp: inc_frame_def split: sum.splits)
next
  fix e st'
  assume b: "includeFile n h opts p st = (Inl e, st')"
  then show "runtime_include n h opts run p st = (Inl e, st')"
    by (simp add: runtime_include_def)
  from includeFile_frame[of h opts p st n] b nc
  show "case include_target h opts p st of
          Inl e' \<Rightarrow> st' = st \<and> e = e'
        | Inr fn \<Rightarrow> (\<exists>extra. pathStack st' = pathStack st @ Some fn # extra)"
    by (auto simp: inc_frame_def split: sum.splits)
next
  fix f st1
  assume a: "includeFile n h opts p st = (Inr f, st1)"
  from includeFile_frame[of h opts p st n] a nc
  show tgt: "\<exists>fn. include_target h opts p st = Inr fn \<and> pathStack st1 = pathStack st @ [Some fn]"
    by (auto simp: inc_frame_def split: sum.splits)
  {
    fix out st2
    assume r: "run f st1 = (Inr out, st2)"
    with a show "runtime_include n h opts run p st
                  = (Inr out, st2\<lparr> pathStack := butlast (pathStack st2) \<rparr>)"
      by (simp add: runtime_include_def)
    assume "pathStack st2 = pathStack st1"
    with tgt show "butlast (pathStack st2) = pathStack st" by auto
  }
  {
    fix e st2
    assume r: "run f st1 = (Inl e, st2)"
    with a show "runtime_include n h opts run p st = (Inl e, st2)"
      by (simp add: runtime_include_def)
  }
qed

lemmas include_eval_defs =
  includeSource_def includeSource_of_def includeFile_def includeFile_with_def
  include_target_def getIncludePath_def resolveInclude_def clientFilename_def top_of_def
  load_include_def fetch_template_def new_state_def demo_opts_def one_file_def posix_defs
  generateSource_with_def sourceToFunc_def prologue_def parseOptions_def replace_first_def
  json_string_opt_def json_string_def json_char_def index_of_def last_index_of_def substr_def

lemma include_of_p_returns:
  "\<not> isl (fst (includeSource (Suc 0) demo_host demo_opts ''p'' (new_state (Some ''views/a.ejs''))))"
  by code_simp

text \<open>
  C2. The entry pushed for an include is claimed to be popped on every exit path, so that
  after an include that failed the path stack is what it was before the include. The pop is
  the statement behind the call, in \<^verbatim>\<open>includeSource\<close> and in the runtime \<^verbatim>\<open>include\<close>, and nothing
  in the source catches an error on the way: the pop is reached only when the call returns.
  From a template \<^verbatim>\<open>views/a.ejs\<close>, with \<^verbatim>\<open>/cwd/views/p.ejs\<close> the only file: the include directive
  of the missing \<^verbatim>\<open>q\<close> and the runtime include of \<^verbatim>\<open>q\<close> end in the error of the read with the
  resolved filename still on the stack, and so does the runtime include of \<^verbatim>\<open>p\<close> when the
  included function throws. The include directive of \<^verbatim>\<open>p\<close> returns, and the stack is as before.
\<close>

theorem include_error_leaves_entry:
  "pathStack (new_state (Some ''views/a.ejs'')) = [Some ''views/a.ejs'']
   \<and> includeSource (Suc 0) demo_host demo_opts ''q'' (new_state (Some ''views/a.ejs''))
     = (Inl (fetch_error ''/cwd/views/q.ejs''),
        (new_state (Some ''views/a.ejs''))\<lparr> pathStack := [Some ''views/a.ejs'', Some ''/cwd/views/q.ejs''] \<rparr>)
   \<and> runtime_include (Suc 0) demo_host demo_opts run ''q'' (new_state (Some ''views/a.ejs''))
     = (Inl (fetch_error ''/cwd/views/q.ejs''),
        (new_state (Some ''views/a.ejs''))\<lparr> pathStack := [Some ''views/a.ejs'', Some ''/cwd/views/q.ejs''] \<rparr>)
   \<and> runtime_include (Suc 0) demo_host demo_opts (\<lambda>f s. (Inl type_error, s)) ''p''
        (new_state (Some ''views/a.ejs''))
     = (Inl type_error,
        (new_state (Some ''views/a.ejs''))\<lparr> pathStack := [Some ''views/a.ejs'', Some ''/cwd/views/p.ejs''] \<rparr>)
   \<and> \<not> isl (fst (includeSource (Suc 0) demo_host demo_opts ''p'' (new_state (Some ''views/a.ejs''))))
   \<and> pathStack (snd (includeSource (Suc 0) demo_host demo_opts ''p'' (new_state (Some ''views/a.ejs''))))
       = [Some ''views/a.ejs'']"
proof -
  let ?S = "new_state (Some ''views/a.ejs'')"
  have nc: "\<not> opt_client demo_opts"
    by (simp add: demo_opts_def default_options_def Template_options_def)
  have q: "includeFile (Suc 0) demo_host demo_opts ''q'' ?S
     = (Inl (fetch_error ''/cwd/views/q.ejs''),
        ?S\<lparr> pathStack := [Some ''views/a.ejs'', Some ''/cwd/views/q.ejs''] \<rparr>)"
    by (simp add: include_eval_defs default_options_def Template_options_def)
  have "\<exists>f. includeFile (Suc 0) demo_host demo_opts ''p'' ?S
     = (Inr f, ?S\<lparr> pathStack := [Some ''views/a.ejs'', Some ''/cwd/views/p.ejs''] \<rparr>)"
    by (simp add: include_eval_defs default_options_def Template_options_def eval_defs)
  then obtain f where p: "includeFile (Suc 0) demo_host demo_opts ''p'' ?S
     = (Inr f, ?S\<lparr> pathStack := [Some ''views/a.ejs'', Some ''/cwd/views/p.ejs''] \<rparr>)" ..
  obtain src st' where s: "includeSource (Suc 0) demo_host demo_opts ''p'' ?S = (Inr src, st')"
    using include_of_p_returns
    by (cases "includeSource (Suc 0) demo_host demo_opts ''p'' ?S";
        cases "fst (includeSource (Suc 0) demo_host demo_opts ''p'' ?S)") auto
  from include_pops_only_on_success[OF nc, of "Suc 0" demo_host "''p''" ?S] s
  have ok: "pathStack st' = [Some ''views/a.ejs'']" by (simp add: new_state_def)
  show ?thesis
    using ok s include_of_p_returns
    by (simp add: includeSource_def includeSource_of_def runtime_include_def q p)
       (simp add: new_state_def)
qed


subsection \<open>C10: option names in the data of a two-argument render\<close>

lemma cp_one_obj: "\<exists>kvs'. cp_one data (JObj kvs) p = JObj kvs'"
  by (simp add: cp_one_def)

lemma foldl_cp_one:
  "\<exists>kvs'. foldl (cp_one data) (JObj kvs) ps = JObj kvs'
     \<and> (\<forall>k. get_prop (JObj kvs') k
           = (if k \<in> set ps \<and> get_prop data k \<noteq> JUndefined then get_prop data k
              else get_prop (JObj kvs) k))"
proof (induction ps arbitrary: kvs)
  case Nil
  then show ?case by simp
next
  case (Cons p ps)
  obtain kvs1 where k1: "cp_one data (JObj kvs) p = JObj kvs1"
    using cp_one_obj by blast
  have g1: "get_prop (JObj kvs1) k
           = (if k = p \<and> get_prop data k \<noteq> JUndefined then get_prop data k else get_prop (JObj kvs) k)" for k
    using k1 get_prop_set_prop[of p "get_prop data p" kvs k]
    by (auto simp: cp_one_def split: if_splits)
  from Cons.IH[of kvs1] obtain kvs' where
    f: "foldl (cp_one data) (JObj kvs1) ps = JObj kvs'"
    and g: "\<And>k. get_prop (JObj kvs') k
           = (if k \<in> set ps \<and> get_prop data k \<noteq> JUndefined then get_prop data k
              else get_prop (JObj kvs1) k)"
    by blast
  show ?case
    using k1 f g g1 by auto
qed

text \<open>
  C10. When \<^verbatim>\<open>render\<close> is called with the template and the data only, the options object
  handed to \<^verbatim>\<open>compile\<close> has, under every recognized option name, the value the data has
  under that name, and nothing under any other name; the \<^verbatim>\<open>Template\<close> is constructed from
  that object, so the fields set the delimiter, the whitespace trim and the other options.
  When a third argument is given, it is the options object as it is (an empty object when
  it is falsy): no field of the data is copied.
\<close>

theorem render_copies_options_from_data:
  "(\<forall>p\<in>set OPTS. get_prop (render_options [d]) p = get_prop (render_data [d]) p)
   \<and> (\<forall>p. p \<notin> set OPTS \<longrightarrow> get_prop (render_options [d]) p = JUndefined)
   \<and> render_options (d # o1 # rest) = (if truthy o1 then o1 else JObj [])
   \<and> render_options [] = JObj []
   \<and> render n h run template args st
       = (case exports_compile n h (Some template) (render_options args) st of
            (Inl e, st1) \<Rightarrow> (Inl e, st1)
          | (Inr fn, st1) \<Rightarrow> run fn (render_data args) st1)"
proof -
  obtain kvs' where
    f: "foldl (cp_one (render_data [d])) (JObj []) OPTS = JObj kvs'"
    and g: "\<And>k. get_prop (JObj kvs') k
           = (if k \<in> set OPTS \<and> get_prop (render_data [d]) k \<noteq> JUndefined
              then get_prop (render_data [d]) k else get_prop (JObj []) k)"
    using foldl_cp_one[of "render_data [d]" "[]" OPTS] by blast
  have ro: "render_options [d] = JObj kvs'"
    using f by (simp add: render_options_def cpOptsInData_def)
  have gp: "get_prop (render_options [d]) k
           = (if k \<in> set OPTS \<and> get_prop (render_data [d]) k \<noteq> JUndefined
              then get_prop (render_data [d]) k else JUndefined)" for k
    unfolding ro g by simp
  have other: "render_options (d # o1 # rest) = (if truthy o1 then o1 else JObj [])"
    "render_options [] = JObj []"
    by (simp_all add: render_options_def)
  show ?thesis
    unfolding other render_def by (simp add: gp)
qed


theorem render_copies_options_from_data_witness:
  "''delimiter'' \<in> set OPTS \<and> get_prop (render_data [optiony_data]) ''delimiter'' = JStr ''?''
   \<and> get_prop (render_options [optiony_data]) ''delimiter'' = JStr ''?''
   \<and> ''name'' \<notin> set OPTS \<and> get_prop (render_options [optiony_data]) ''name'' = JUndefined
   \<and> opt_delimiter (Template_options (render_options [optiony_data])) = ''?''
   \<and> opt_rmWhitespace (Template_options (render_options [optiony_data]))
   \<and> opt_delimiter (Template_options (render_options [optiony_data, JObj []])) = ''%''
   \<and> \<not> opt_rmWhitespace (Template_options (render_options [optiony_data, JObj []]))"
  using render_copies_options_from_data [of optiony_data "JObj []" "[]" 0 demo_host undefined "''t''" "[]" "new_state None"]
  by (simp add: OPTS_def optiony_data_def render_data_def render_options_def cpOptsInData_def
      cp_one_def set_property_def Template_options_def)


subsection \<open>C9: templates without tags\<close>

lemma starts_with_Nil [simp]: "starts_with [] s"
  by (simp add: starts_with_def)

lemma starts_with_Cons_Nil [simp]: "\<not> starts_with (a # p) []"
  by (simp add: starts_with_def)

lemma starts_with_Cons_Cons [simp]: "starts_with (a # p) (x # s) = (a = x \<and> starts_with p s)"
  by (auto simp: starts_with_def)

lemma starts_with_append: "starts_with (p @ q) s \<Longrightarrow> starts_with p s"
proof (induction p arbitrary: s)
  case Nil
  then show ?case by simp
next
  case (Cons a p)
  then show ?case by (cases s) auto
qed

lemma contains_Cons: "p \<noteq> [] \<Longrightarrow> contains p (c # s) = (starts_with p (c # s) \<or> contains p s)"
  by simp

lemma contains_append: "contains (p @ q) s \<Longrightarrow> contains p s"
proof (induction s)
  case Nil
  then show ?case by simp
next
  case (Cons c s)
  then show ?case using starts_with_append[of p q "c # s"] by auto
qed

lemma contains_drop: "contains p (drop k s) \<Longrightarrow> contains p s"
proof (induction s arbitrary: k)
  case Nil
  then show ?case by simp
next
  case (Cons c s)
  then show ?case by (cases k) auto
qed

lemma starts_with_drop_contains: "starts_with p (drop k s) \<Longrightarrow> p \<noteq> [] \<Longrightarrow> contains p s"
proof (rule contains_drop[of p k s])
  assume "starts_with p (drop k s)" "p \<noteq> []"
  then show "contains p (drop k s)" by (cases p; cases "drop k s") auto
qed

lemma tag_matches_contains:
  assumes "tag_matches d s \<noteq> []"
  shows "contains (''<'' @ d) s"
proof -
  from assms obtain k where "starts_with (''<'' @ d) (drop k s)"
    by (auto simp: tag_matches_def greedy_class_def lit_def split: if_splits)
  then show ?thesis by (rule starts_with_drop_contains) simp
qed

lemma first_match_no_tag:
  assumes "\<not> contains (''<'' @ d) s"
  shows "first_match dbg d s = (if dbg \<and> starts_with esc_n s then Some (NewlineMatch, 2) else None)"
proof -
  from assms tag_matches_contains[of d s] have "tag_matches d s = []" by blast
  then show ?thesis by (simp add: first_match_def)
qed

lemma replace_tags_no_tag:
  "\<not> contains (''<'' @ opt_delimiter opts) s \<Longrightarrow> replace_tags h inc opts line s st = (Inr s, st)"
proof (induction h inc opts line s st rule: replace_tags.induct)
  case (1 h incFile opts line st)
  then show ?case by simp
next
  case (2 h incFile opts line c cs st)
  let ?d = "opt_delimiter opts"
  note nc = "2.prems"
  have fm: "first_match (opt_compileDebug opts) ?d (c # cs)
        = (if opt_compileDebug opts \<and> starts_with esc_n (c # cs) then Some (NewlineMatch, 2) else None)"
    by (rule first_match_no_tag) (rule nc)
  have nc_cs: "\<not> contains (''<'' @ ?d) cs" using nc by simp
  show ?case
  proof (cases "opt_compileDebug opts \<and> starts_with esc_n (c # cs)")
    case True
    with fm have f: "first_match (opt_compileDebug opts) ?d (c # cs) = Some (NewlineMatch, 2)" by simp
    from nc_cs have "\<not> contains (''<'' @ ?d) (drop (2 - 1) cs)" using contains_drop by blast
    from "2.IH"(3)[OF f refl refl this]
    have "replace_tags h incFile opts (Suc line) (drop (2 - 1) cs) st = (Inr (drop (2 - 1) cs), st)" .
    moreover from True have "esc_n @ drop (2 - 1) cs = c # cs"
      by (cases cs) (auto simp: esc_n_def)
    ultimately show ?thesis using f by simp
  next
    case False
    with fm have f: "first_match (opt_compileDebug opts) ?d (c # cs) = None" by simp
    from "2.IH"(1)[OF f nc_cs] f show ?thesis by simp
  qed
qed

lemma contains_skip_disjoint:
  "set u \<inter> set p = {} \<Longrightarrow> p \<noteq> [] \<Longrightarrow> contains p (u @ v) \<Longrightarrow> contains p v"
proof (induction u)
  case Nil
  then show ?case by simp
next
  case (Cons x u)
  then show ?case by (cases p) auto
qed

lemma starts_with_expand:
  assumes st: "\<And>c. f c = [c] \<or> (f c \<noteq> [] \<and> set (f c) \<inter> set p = {})"
  shows "set q \<subseteq> set p \<Longrightarrow> starts_with q (concat (map f t)) \<Longrightarrow> starts_with q t"
proof (induction q arbitrary: t)
  case Nil
  then show ?case by simp
next
  case (Cons a q)
  show ?case
  proof (cases t)
    case Nil
    with Cons.prems show ?thesis by simp
  next
    case (Cons c t')
    from st[of c] show ?thesis
    proof
      assume "f c = [c]"
      with Cons Cons.prems Cons.IH[of t'] show ?thesis by auto
    next
      assume d: "f c \<noteq> [] \<and> set (f c) \<inter> set p = {}"
      then obtain x xs where fx: "f c = x # xs" by (cases "f c") auto
      with Cons.prems Cons have "a = x" by simp
      with d fx Cons.prems(1) show ?thesis by auto
    qed
  qed
qed

lemma contains_expand:
  assumes st: "\<And>c. f c = [c] \<or> (f c \<noteq> [] \<and> set (f c) \<inter> set p = {})" and ne: "p \<noteq> []"
  shows "contains p (concat (map f t)) \<Longrightarrow> contains p t"
proof (induction t)
  case Nil
  then show ?case by simp
next
  case (Cons c t)
  from st[of c] show ?case
  proof
    assume fc: "f c = [c]"
    with Cons.prems ne have "starts_with p (concat (map f (c # t))) \<or> contains p (concat (map f t))"
      by simp
    then show ?thesis
    proof
      assume "starts_with p (concat (map f (c # t)))"
      with starts_with_expand[of f p p "c # t", OF st] have "starts_with p (c # t)" by simp
      with ne show ?thesis by simp
    next
      assume "contains p (concat (map f t))"
      with Cons.IH ne show ?thesis by simp
    qed
  next
    assume d: "f c \<noteq> [] \<and> set (f c) \<inter> set p = {}"
    with Cons.prems ne have "contains p (concat (map f t))"
      using contains_skip_disjoint[of "f c" p "concat (map f t)"] by simp
    with Cons.IH ne show ?thesis by simp
  qed
qed

lemma escapes_keep_absent:
  assumes dis: "set p \<inter> {bslash, squote, CHR ''n'', CHR ''r''} = {}" and ne: "p \<noteq> []"
    and nc: "\<not> contains p t"
  shows "\<not> contains p (escape_cr (escape_nl (escape_quotes t)))"
proof -
  let ?f1 = "\<lambda>c. if c = squote \<or> c = bslash then [bslash, c] else [c]"
  let ?f2 = "\<lambda>c. if c = nl then esc_n else [c]"
  let ?f3 = "\<lambda>c. if c = cr then esc_r else [c]"
  have s1: "?f1 c = [c] \<or> (?f1 c \<noteq> [] \<and> set (?f1 c) \<inter> set p = {})" for c
    using dis by auto
  have s2: "?f2 c = [c] \<or> (?f2 c \<noteq> [] \<and> set (?f2 c) \<inter> set p = {})" for c
    using dis by (auto simp: esc_n_def)
  have s3: "?f3 c = [c] \<or> (?f3 c \<noteq> [] \<and> set (?f3 c) \<inter> set p = {})" for c
    using dis by (auto simp: esc_r_def)
  have 1: "\<not> contains p (escape_quotes t)"
    using nc contains_expand[of ?f1 p t, OF s1 ne] unfolding escape_quotes_def by blast
  have 2: "\<not> contains p (escape_nl (escape_quotes t))"
    using 1 contains_expand[of ?f2 p "escape_quotes t", OF s2 ne] unfolding escape_nl_def by blast
  show ?thesis
    using 2 contains_expand[of ?f3 p "escape_nl (escape_quotes t)", OF s3 ne]
    unfolding escape_cr_def by blast
qed

lemma unescape_literal_id:
  "\<not> contains (''<'' @ d @ d) s \<Longrightarrow> \<not> contains (d @ d @ ''>'') s \<Longrightarrow> unescape_literal d s = s"
proof (induction s)
  case Nil
  then show ?case by simp
next
  case (Cons c s)
  then show ?case by (auto simp del: starts_with_Cons_Cons)
qed


lemma sq_literal_quote: "sq_literal (squote # r) = Some ([], r)"
  by (cases r) auto

lemma sq_literal_plain:
  "c \<noteq> squote \<Longrightarrow> c \<noteq> bslash \<Longrightarrow> c \<noteq> nl \<Longrightarrow> c \<noteq> cr \<Longrightarrow>
     sq_literal (c # r) = map_option (apfst ((#) c)) (sq_literal r)"
  by (cases r) auto

lemma escape_Cons:
  "escape_cr (escape_nl (escape_quotes (c # t)))
   = (if c = squote then [bslash, squote] else if c = bslash then [bslash, bslash]
      else if c = nl then esc_n else if c = cr then esc_r else [c])
     @ escape_cr (escape_nl (escape_quotes t))"
  by (simp add: escape_cr_def escape_nl_def escape_quotes_def esc_n_def esc_r_def)

lemma sq_literal_escape:
  "sq_literal (escape_cr (escape_nl (escape_quotes t)) @ squote # r) = Some (t, r)"
proof (induction t)
  case Nil
  then show ?case by (simp add: escape_cr_def escape_nl_def escape_quotes_def sq_literal_quote)
next
  case (Cons c t)
  then show ?case
    by (simp add: escape_Cons sq_literal_plain esc_n_def esc_r_def del: sq_literal.simps(2))
qed

lemma get_substitution_skip:
  "CHR ''$'' \<notin> set u \<Longrightarrow> get_substitution m b a (u @ v) = u @ get_substitution m b a v"
proof (induction u)
  case Nil
  then show ?case by simp
next
  case (Cons x u)
  then show ?case by (cases "u @ v") auto
qed

lemma hex_digit_not_dollar: "hex_digit d \<noteq> CHR ''$''"
proof -
  have "hex_digit d \<in> set ''0123456789abcdef''"
    unfolding hex_digit_def by (rule nth_mem) simp
  then show ?thesis by auto
qed

lemma json_char_no_dollar: "CHR ''$'' \<noteq> c \<Longrightarrow> CHR ''$'' \<notin> set (json_char c)"
proof -
  have a: "CHR ''$'' \<noteq> hex_digit x" for x using hex_digit_not_dollar[of x] by (rule not_sym)
  assume "CHR ''$'' \<noteq> c"
  then show ?thesis by (simp add: json_char_def a)
qed

lemma json_char_nonempty: "json_char d \<noteq> []"
  by (simp add: json_char_def)

lemma hd_json_char:
  "hd (json_char d) \<in> set [CHR ''$'', CHR ''&'', CHR 0x60, squote] \<Longrightarrow> hd (json_char d) = d"
  by (auto simp: json_char_def split: if_splits)

lemma is_hex_digit: "is_hex (hex_digit k)"
proof -
  have "hex_digit k \<in> set ''0123456789abcdef''"
    unfolding hex_digit_def by (rule nth_mem) simp
  then show ?thesis by (auto simp: is_hex_def)
qed

lemma dq_rest_quote: "dq_rest (dquote # r) = Some r"
  by (cases r) auto

lemma dq_rest_plain:
  "c \<noteq> dquote \<Longrightarrow> c \<noteq> bslash \<Longrightarrow> c \<noteq> nl \<Longrightarrow> c \<noteq> cr \<Longrightarrow> dq_rest (c # r) = dq_rest r"
  by (cases r) auto

lemma dq_rest_safe:
  "dquote \<notin> set s \<Longrightarrow> bslash \<notin> set s \<Longrightarrow> nl \<notin> set s \<Longrightarrow> cr \<notin> set s \<Longrightarrow>
     dq_rest (s @ r) = dq_rest r"
  by (induction s) (auto simp: dq_rest_plain)

lemma dq_rest_json_char: "dq_rest (json_char c @ r) = dq_rest r"
proof -
  have z: "is_hex (CHR ''0'')" by (simp add: is_hex_def)
  show ?thesis by (simp add: json_char_def dq_rest_plain is_hex_digit z)
qed

lemma dq_rest_substituted:
  assumes m: "dquote \<notin> set m" "bslash \<notin> set m" "nl \<notin> set m" "cr \<notin> set m"
    and b: "dquote \<notin> set b" "bslash \<notin> set b" "nl \<notin> set b" "cr \<notin> set b"
  shows "\<not> expands_after t \<Longrightarrow>
     dq_rest (get_substitution m b a (concat (map json_char t) @ [dquote]) @ r) = Some r"
proof (induction t rule: expands_after.induct)
  case (3 c d ds)
  let ?J = "concat (map json_char ds) @ [dquote]"
  show ?case
  proof (cases "c = CHR ''$''")
    case False
    then have nd: "CHR ''$'' \<notin> set (json_char c)" using json_char_no_dollar[of c] by auto
    from False "3.prems" have "\<not> expands_after (d # ds)" by simp
    with "3.IH"(1) False
    have ih: "dq_rest (get_substitution m b a (concat (map json_char (d # ds)) @ [dquote]) @ r) = Some r"
      by simp
    have "get_substitution m b a (concat (map json_char (c # d # ds)) @ [dquote])
          = json_char c @ get_substitution m b a (concat (map json_char (d # ds)) @ [dquote])"
      using get_substitution_skip[OF nd, of m b a "concat (map json_char (d # ds)) @ [dquote]"]
      by simp
    then show ?thesis using ih by (simp add: dq_rest_json_char)
  next
    case True
    have jc: "json_char c = [CHR ''$'']" using True by (simp add: json_char_def)
    consider (pat) "d = CHR ''$'' \<or> d = CHR ''&'' \<or> d = CHR 0x60"
      | (other) "\<not> (d = CHR ''$'' \<or> d = CHR ''&'' \<or> d = CHR 0x60)" "d \<noteq> squote"
      using True "3.prems"
      by (cases "d = CHR ''$'' \<or> d = CHR ''&'' \<or> d = CHR 0x60"; cases "d = squote") auto
    then show ?thesis
    proof cases
      case pat
      then have jd: "json_char d = [d]" by (auto simp: json_char_def)
      from True pat "3.prems" have "\<not> expands_after ds" by simp
      with "3.IH"(2) True pat
      have ih: "dq_rest (get_substitution m b a ?J @ r) = Some r" by simp
      have d1: "dq_rest (CHR ''$'' # s) = dq_rest s" for s by (rule dq_rest_plain) simp_all
      from pat show ?thesis
        using ih dq_rest_safe[OF m, of "get_substitution m b a ?J @ r"]
          dq_rest_safe[OF b, of "get_substitution m b a ?J @ r"]
        by (auto simp: jc jd d1)
    next
      case other
      from True other "3.prems" have "\<not> expands_after (d # ds)" by simp
      with "3.IH"(3) True other
      have ih: "dq_rest (get_substitution m b a (concat (map json_char (d # ds)) @ [dquote]) @ r) = Some r"
        by simp
      obtain x xs where x: "json_char d = x # xs"
        using json_char_nonempty[of d] by (cases "json_char d") auto
      have xn: "x \<noteq> CHR ''$''" "x \<noteq> CHR ''&''" "x \<noteq> CHR 0x60" "x \<noteq> squote"
        using hd_json_char[of d] x other by auto
      have d1: "dq_rest (CHR ''$'' # s) = dq_rest s" for s by (rule dq_rest_plain) simp_all
      have "get_substitution m b a (concat (map json_char (c # d # ds)) @ [dquote])
            = CHR ''$'' # get_substitution m b a (concat (map json_char (d # ds)) @ [dquote])"
        using xn by (simp add: jc x)
      then show ?thesis using ih by (simp add: d1)
    qed
  qed
next
  case 1
  then show ?case by (simp add: dq_rest_quote)
next
  case (2 v)
  show ?case
  proof (cases "v = CHR ''$''")
    case True
    then show ?thesis by (simp add: json_char_def dq_rest_quote)
  next
    case False
    then have nd: "CHR ''$'' \<notin> set (json_char v)" using json_char_no_dollar[of v] by auto
    have "get_substitution m b a (json_char v @ [dquote]) = json_char v @ [dquote]"
      using get_substitution_skip[OF nd, of m b a "[dquote]"] by simp
    then show ?thesis by (simp add: dq_rest_json_char dq_rest_quote)
  qed
qed

lemma get_substitution_quote:
  "get_substitution m b a (dquote # s) = dquote # get_substitution m b a s"
  by (cases s) auto

lemma prologue_default:
  "prologue h default_options t None
   = ''var __filename = undefined;var __line = 1, __lines = ''
     @ get_substitution ''__template__'' ''var __filename = undefined;var __line = 1, __lines = ''
         ('';'' @ [nl] @ ''try { '' @ [nl] @ ''with(locals || {}) {'' @ [nl] @ ''var __output = '' @ [squote])
         (json_string t)
     @ '';'' @ [nl] @ ''try { '' @ [nl] @ ''with(locals || {}) {'' @ [nl] @ ''var __output = '' @ [squote]"
  by (simp add: prologue_def parseOptions_def replace_first_def json_string_opt_def
      default_options_def Template_options_def)

lemma run_static_literal:
  assumes "\<not> expands_after t"
  shows "run_static ''locals, escape, include, rethrow''
           (prologue h default_options t None @ escape_cr (escape_nl (escape_quotes t)) @ [squote]
              @ appended (parseOptions h default_options)) data
         = Some (static_result True True data t)"
proof -
  have dq: "dq_rest (get_substitution ''__template__'' b a (concat (map json_char t) @ [dquote]) @ r) = Some r"
    if "dquote \<notin> set b" "bslash \<notin> set b" "nl \<notin> set b" "cr \<notin> set b" for b a r
    by (rule dq_rest_substituted[OF _ _ _ _ that assms]) simp_all
  have ap: "appended (parseOptions h default_options) = static_epilogue True True"
    by (simp add: parseOptions_def static_epilogue_def default_options_def Template_options_def)
  show ?thesis
    unfolding prologue_default ap run_static_def
    by (simp add: after_prefix_def value_rest_def debug_header_def with_header_def
        json_string_def get_substitution_quote dq sq_literal_escape)
qed

text \<open>
  C9, as claimed: a template without tags renders as itself with any data object. The
  counterexample: the data object has a property \<^verbatim>\<open>__output\<close>. The accumulator is declared
  inside the \<^verbatim>\<open>with\<close> block of the data, its initialiser is stored in the property, and the
  program returns \<^verbatim>\<open>undefined\<close>.
\<close>

theorem literal_template_with_output_property:
  "\<not> contains ''<%'' ''hello'' \<and> \<not> contains ''%%>'' ''hello''
   \<and> render_static 0 demo_host default_options ''hello'' (JObj [(''__output'', JNum 1)]) (new_state None)
       = Some (Inr JUndefined, new_state None)"
  by (simp add: render_static_def generateSource_with_def static_defs strings_of_def eval_defs)

text \<open>
  C9, as amended. For every template text that holds no tag-opening sequence, no
  literal-delimiter escape pair and no replacement pattern \<^verbatim>\<open>$'\<close> (a quote directly behind an
  odd number of dollar signs), compiled under the default options, rendering with any data
  object that has no property \<^verbatim>\<open>__output\<close> returns the text unchanged, with its quotes,
  backslashes, dollar signs and line breaks, and changes no state. The other replacement
  patterns (\<^verbatim>\<open>$$\<close>, \<^verbatim>\<open>$&\<close> and a dollar sign before a backquote) are expanded when the
  prologue is filled in and change only the copy of the template kept for error reports;
  the pattern \<^verbatim>\<open>$'\<close> puts the rest of the prologue, with its line breaks, inside that string
  literal.
\<close>

theorem literal_template_renders_itself:
  assumes "\<not> contains ''<%'' t" and "\<not> contains ''%%>'' t" and "\<not> expands_after t"
    and "\<not> has_property data ''__output''"
  shows "render_static n h default_options t data st = Some (Inr (JStr t), st)"
proof -
  let ?e = "escape_cr (escape_nl (escape_quotes t))"
  have d: "opt_delimiter default_options = ''%''" "\<not> opt_rmWhitespace default_options"
    "opt_compileDebug default_options" "\<not> opt_client default_options" "opt_with default_options"
    "opt_filename default_options = None" "opt_localsName default_options = ''locals''"
    "opt_precompile default_options = []" "\<not> opt_strict default_options"
    by (simp_all add: default_options_def Template_options_def strings_of_def)
  have e1: "\<not> contains ''<%'' ?e" by (rule escapes_keep_absent) (use assms in auto)
  have e2: "\<not> contains ''%%>'' ?e" by (rule escapes_keep_absent) (use assms in auto)
  have e3: "\<not> contains ''<%%'' ?e" using e1 contains_append[of "''<%''" "''%''" ?e] by auto
  have rt: "replace_tags h inc default_options line ?e st = (Inr ?e, st)" for inc line
    by (rule replace_tags_no_tag) (use e1 d in simp)
  have ul: "unescape_literal ''%'' ?e = ?e"
    by (rule unescape_literal_id) (use e2 e3 in simp_all)
  have body: "template_body h inc default_options t st = (Inr ?e, st)" for inc
    by (simp add: template_body_def d rt ul)
  have gen: "generateSource (Suc n) h default_options (Some t) None st
             = (Inr (prologue h default_options t None @ ?e @ [squote]
                     @ appended (parseOptions h default_options)), st)"
    by (simp add: generateSource_with_def body)
  have gp: "globalPrepened (parseOptions h default_options) = []"
    "globalAppended (parseOptions h default_options) = []"
    using d by (simp_all add: parseOptions_def)
  have hp: "\<not> has_property (if truthy data then data else JObj []) ''__output''"
    using assms(4) by simp
  have run: "run_static ''locals, escape, include, rethrow''
               (prologue h default_options t None @ ?e @ [squote]
                  @ appended (parseOptions h default_options))
               (if truthy data then data else JObj [])
             = Some (JStr t)"
    unfolding run_static_literal[OF assms(3)] using hp by (simp add: static_result_def)
  show ?thesis
    unfolding render_static_def d gen gp using run by (simp add: d)
qed

theorem literal_template_renders_itself_witness:
  "\<not> contains ''<%'' (''it'' @ [squote] @ ''s $5, 100% $$'' @ [nl, bslash] @ ''n'')
   \<and> \<not> contains ''%%>'' (''it'' @ [squote] @ ''s $5, 100% $$'' @ [nl, bslash] @ ''n'')
   \<and> \<not> expands_after (''it'' @ [squote] @ ''s $5, 100% $$'' @ [nl, bslash] @ ''n'')
   \<and> \<not> has_property (JObj [(''x'', JNum 1)]) ''__output''
   \<and> render_static 0 demo_host default_options (''it'' @ [squote] @ ''s $5, 100% $$'' @ [nl, bslash] @ ''n'')
         (JObj [(''x'', JNum 1)]) (new_state None)
       = Some (Inr (JStr (''it'' @ [squote] @ ''s $5, 100% $$'' @ [nl, bslash] @ ''n'')), new_state None)"
  using literal_template_renders_itself
    [of "''it'' @ [squote] @ ''s $5, 100% $$'' @ [nl, bslash] @ ''n''" "JObj [(''x'', JNum 1)]" 0 demo_host
        "new_state None"]
  by simp

end
